theory Spec2Isabelle
  imports Complex_Main "HOL-Library.AList" "HOL-Library.Sublist" "HOL-Library.Product_Lexorder"
    "HOL-Library.Multiset"
begin

section \<open>Python values\<close>

text \<open>
  The analysis module (\<^verbatim>\<open>src/analysis.py\<close>) works on pandas DataFrames whose cells
  are Python strings (everything read from the sheet), floats (the column
  \<^verbatim>\<open>VALUE_NUMERIC\<close>) or missing.

  A Python float is modelled as an exact rational, or one of the three special values.
  Rounding to binary64, overflow to infinity and the sign of zero are not modelled.
\<close>

datatype pyfloat = Fin rat | PInf | NInf | NaN

datatype cell = Str string | Num pyfloat | NoneV

datatype error = KeyError | ValueError | AttributeError | TypeError | IndexError
  | ZeroDivisionError | SyntaxError

text \<open>Float arithmetic and comparisons; every comparison with \<open>NaN\<close> is false.\<close>

fun fadd :: "pyfloat \<Rightarrow> pyfloat \<Rightarrow> pyfloat" where
  "fadd NaN y = NaN"
| "fadd x NaN = NaN"
| "fadd PInf NInf = NaN"
| "fadd NInf PInf = NaN"
| "fadd PInf y = PInf"
| "fadd x PInf = PInf"
| "fadd NInf y = NInf"
| "fadd x NInf = NInf"
| "fadd (Fin a) (Fin b) = Fin (a + b)"

fun fneg :: "pyfloat \<Rightarrow> pyfloat" where
  "fneg (Fin a) = Fin (- a)"
| "fneg PInf = NInf"
| "fneg NInf = PInf"
| "fneg NaN = NaN"

fun fabs :: "pyfloat \<Rightarrow> pyfloat" where
  "fabs (Fin a) = Fin \<bar>a\<bar>"
| "fabs PInf = PInf"
| "fabs NInf = PInf"
| "fabs NaN = NaN"

fun fless :: "pyfloat \<Rightarrow> pyfloat \<Rightarrow> bool" where
  "fless NaN y = False"
| "fless x NaN = False"
| "fless (Fin a) (Fin b) = (a < b)"
| "fless x NInf = False"
| "fless PInf y = False"
| "fless NInf y = True"
| "fless x PInf = True"

fun feq :: "pyfloat \<Rightarrow> pyfloat \<Rightarrow> bool" where
  "feq NaN y = False"
| "feq x NaN = False"
| "feq x y = (x = y)"

text \<open>
  \<^verbatim>\<open>a / b\<close> on floats. A zero divisor raises for Python floats; the only division
  of the module is guarded by \<^verbatim>\<open>total_income == 0\<close>.
\<close>

fun fdiv :: "pyfloat \<Rightarrow> pyfloat \<Rightarrow> error + pyfloat" where
  "fdiv NaN y = Inr NaN"
| "fdiv x NaN = Inr NaN"
| "fdiv x (Fin b) =
     (if b = 0 then Inl ZeroDivisionError
      else case x of
        Fin a \<Rightarrow> Inr (Fin (a / b))
      | PInf \<Rightarrow> Inr (if 0 < b then PInf else NInf)
      | NInf \<Rightarrow> Inr (if 0 < b then NInf else PInf)
      | NaN \<Rightarrow> Inr NaN)"
| "fdiv (Fin a) y = Inr (Fin 0)"
| "fdiv x y = Inr NaN"

text \<open>\<^verbatim>\<open>Series.sum()\<close>: missing values are skipped, the empty sum is 0.\<close>

definition nansum :: "pyfloat list \<Rightarrow> pyfloat" where
  "nansum xs = foldl fadd (Fin 0) (filter (\<lambda>x. x \<noteq> NaN) xs)"

section \<open>Python strings\<close>

text \<open>
  A string is its UTF-8 bytes. Only ASCII white space and ASCII digits are recognised
  by \<open>str_strip\<close> and \<open>py_float\<close>.
\<close>

definition is_space :: "char \<Rightarrow> bool" where
  "is_space c = (c \<in> set [CHR '' '', CHR 0x09, CHR 0x0A, CHR 0x0B, CHR 0x0C, CHR 0x0D,
                          CHR 0x1C, CHR 0x1D, CHR 0x1E, CHR 0x1F])"

text \<open>\<^verbatim>\<open>s.strip()\<close>\<close>

definition str_strip :: "string \<Rightarrow> string" where
  "str_strip s = rev (dropWhile is_space (rev (dropWhile is_space s)))"

text \<open>\<^verbatim>\<open>sub in s\<close> for strings\<close>

fun contains :: "string \<Rightarrow> string \<Rightarrow> bool" where
  "contains [] sub = (sub = [])"
| "contains (c # cs) sub = (prefix sub (c # cs) \<or> contains cs sub)"

text \<open>\<^verbatim>\<open>s.replace(old, '')\<close>: every occurrence of \<open>old\<close>, from the left, is removed.\<close>

function str_remove :: "string \<Rightarrow> string \<Rightarrow> string" where
  "str_remove old [] = []"
| "str_remove old (c # cs) =
     (if old \<noteq> [] \<and> prefix old (c # cs) then str_remove old (drop (length old) (c # cs))
      else c # str_remove old cs)"
  by pat_completeness auto
termination
  by (relation "measure (\<lambda>(old, s). length s)") auto

text \<open>The currency marker \<^verbatim>\<open>'K\<close>\<open>\<ccaron>\<close>\<^verbatim>\<open>'\<close>: letter K, then U+010D in UTF-8.\<close>

definition Kc :: string where
  "Kc = [CHR ''K'', CHR 0xC4, CHR 0x8D]"

subsection \<open>\<^verbatim>\<open>float(s)\<close>\<close>

definition is_digit :: "char \<Rightarrow> bool" where
  "is_digit c = (c \<in> set ''0123456789'')"

definition digits_val :: "string \<Rightarrow> nat" where
  "digits_val ds = foldl (\<lambda>a d. 10 * a + (of_char d - 48)) 0 ds"

text \<open>An underscore is accepted only between two digits.\<close>

fun underscores_ok :: "char \<Rightarrow> string \<Rightarrow> bool" where
  "underscores_ok prev [] = (prev \<noteq> CHR ''_'')"
| "underscores_ok prev (c # cs) =
     ((if c = CHR ''_'' then is_digit prev else (prev = CHR ''_'' \<longrightarrow> is_digit c))
      \<and> underscores_ok c cs)"

definition lower :: "string \<Rightarrow> string" where
  "lower s = map (\<lambda>c. if (65::nat) \<le> of_char c \<and> of_char c \<le> (90::nat)
                       then char_of (of_char c + (32::nat)) else c) s"

definition pow10 :: "int \<Rightarrow> rat" where
  "pow10 k = (if 0 \<le> k then 10 ^ nat k else 1 / 10 ^ nat (- k))"

text \<open>What may follow the mantissa: nothing, or \<^verbatim>\<open>e\<close>, an optional sign and digits.\<close>

definition parse_exponent :: "string \<Rightarrow> int option" where
  "parse_exponent s =
     (case s of
        [] \<Rightarrow> Some 0
      | c # cs \<Rightarrow>
          if c = CHR ''e'' \<or> c = CHR ''E'' then
            (let (neg, ds) = (case cs of
                                [] \<Rightarrow> (False, [])
                              | d # r \<Rightarrow> if d = CHR ''-'' then (True, r)
                                         else if d = CHR ''+'' then (False, r)
                                         else (False, cs))
             in if ds \<noteq> [] \<and> list_all is_digit ds
                then Some (if neg then - int (digits_val ds) else int (digits_val ds))
                else None)
          else None)"

definition parse_unsigned :: "string \<Rightarrow> pyfloat option" where
  "parse_unsigned s =
     (if lower s = ''inf'' \<or> lower s = ''infinity'' then Some PInf
      else if lower s = ''nan'' then Some NaN
      else
        let ip = takeWhile is_digit s;
            r1 = dropWhile is_digit s;
            (fp, r2) = (case r1 of
                          [] \<Rightarrow> ([], [])
                        | c # r \<Rightarrow> if c = CHR ''.''
                                   then (takeWhile is_digit r, dropWhile is_digit r)
                                   else ([], r1))
        in if ip = [] \<and> fp = [] then None
           else case parse_exponent r2 of
                  None \<Rightarrow> None
                | Some e \<Rightarrow> Some (Fin (of_nat (digits_val (ip @ fp)) * pow10 (e - int (length fp)))))"

definition py_float :: "string \<Rightarrow> error + pyfloat" where
  "py_float s =
     (let t = str_strip s in
      if \<not> underscores_ok (CHR 0x00) t then Inl ValueError
      else
        let u = filter (\<lambda>c. c \<noteq> CHR ''_'') t;
            (neg, body) = (case u of
                             [] \<Rightarrow> (False, [])
                           | c # r \<Rightarrow> if c = CHR ''-'' then (True, r)
                                      else if c = CHR ''+'' then (False, r)
                                      else (False, u))
        in case parse_unsigned body of
             None \<Rightarrow> Inl ValueError
           | Some x \<Rightarrow> Inr (if neg then fneg x else x))"

text \<open>
  The clean-up every function of the module applies to a value string:
  \<^verbatim>\<open>.str.replace('K\<close>\<open>\<ccaron>\<close>\<^verbatim>\<open>', '').str.replace(',', '').str.strip()\<close> and then
  \<^verbatim>\<open>astype(float)\<close>, which raises \<^verbatim>\<open>ValueError\<close> on a string that is no float.
\<close>

definition clean_value :: "string \<Rightarrow> string" where
  "clean_value s = str_strip (str_remove '','' (str_remove Kc s))"

definition to_float :: "string \<Rightarrow> error + pyfloat" where
  "to_float s = py_float (clean_value s)"

section \<open>DataFrames\<close>

text \<open>
  A DataFrame is its column labels and its rows, in order; a row is the record of its
  cells by column label. A cell that a row does not carry reads as missing. Row index
  labels are not modelled.
\<close>

type_synonym row = "(string \<times> cell) list"

record dataframe =
  columns :: "string list"
  rows :: "row list"

definition cell_at :: "row \<Rightarrow> string \<Rightarrow> cell" where
  "cell_at r c = (case map_of r c of Some v \<Rightarrow> v | None \<Rightarrow> NoneV)"

text \<open>\<^verbatim>\<open>df.empty\<close>\<close>

definition is_empty :: "dataframe \<Rightarrow> bool" where
  "is_empty df = (columns df = [] \<or> rows df = [])"

text \<open>\<^verbatim>\<open>df[c]\<close>, a \<^verbatim>\<open>KeyError\<close> when there is no such column\<close>

definition column :: "dataframe \<Rightarrow> string \<Rightarrow> error + cell list" where
  "column df c = (if c \<in> set (columns df) then Inr (map (\<lambda>r. cell_at r c) (rows df))
                  else Inl KeyError)"

text \<open>\<^verbatim>\<open>df[mask]\<close>, for a mask given row by row, and for a mask given as a list\<close>

definition where_rows :: "(row \<Rightarrow> bool) \<Rightarrow> dataframe \<Rightarrow> dataframe" where
  "where_rows P df = df\<lparr>rows := filter P (rows df)\<rparr>"

definition select_rows :: "bool list \<Rightarrow> dataframe \<Rightarrow> dataframe" where
  "select_rows keep df = df\<lparr>rows := map snd (filter fst (zip keep (rows df)))\<rparr>"

text \<open>\<^verbatim>\<open>df[c] = values\<close>: the column is overwritten, or added as the last one\<close>

definition set_column :: "string \<Rightarrow> cell list \<Rightarrow> dataframe \<Rightarrow> dataframe" where
  "set_column c vs df =
     \<lparr>columns = (if c \<in> set (columns df) then columns df else columns df @ [c]),
      rows = map (\<lambda>(r, v). AList.update c v r) (zip (rows df) vs)\<rparr>"

text \<open>\<^verbatim>\<open>df.drop(c, axis=1)\<close>\<close>

definition drop_column :: "string \<Rightarrow> dataframe \<Rightarrow> error + dataframe" where
  "drop_column c df =
     (if c \<in> set (columns df)
      then Inr \<lparr>columns = removeAll c (columns df), rows = map (AList.delete c) (rows df)\<rparr>
      else Inl KeyError)"

text \<open>
  A numeric column is read right after \<^verbatim>\<open>astype(float)\<close> wrote it, so it holds floats;
  a missing cell is \<open>NaN\<close>.
\<close>

fun num_of :: "cell \<Rightarrow> pyfloat" where
  "num_of (Num x) = x"
| "num_of c = NaN"

definition sum_column :: "dataframe \<Rightarrow> string \<Rightarrow> error + pyfloat" where
  "sum_column df c =
     (case column df c of Inl e \<Rightarrow> Inl e | Inr xs \<Rightarrow> Inr (nansum (map num_of xs)))"

subsection \<open>Library operations that are parameters\<close>

text \<open>
  A criterion of \<^verbatim>\<open>sum_values_by_criteria\<close> is a list of accepted values or a string.
\<close>

datatype criterion = CList "cell list" | CStr string

text \<open>
  Two operations of the libraries are not modelled and are parameters of the functions
  below. \<open>query_mask L df key value\<close> is the row mask that
  \<^verbatim>\<open>df.query(f"{key} {value}")\<close> selects with, or the exception it raises;
  \<open>float_repr L x\<close> is \<^verbatim>\<open>str(x)\<close> for a float.
\<close>

record pylib =
  query_mask :: "dataframe \<Rightarrow> string \<Rightarrow> criterion \<Rightarrow> error + bool list"
  float_repr :: "pyfloat \<Rightarrow> string"

text \<open>\<^verbatim>\<open>astype(str)\<close> on a cell\<close>

fun astype_str :: "pylib \<Rightarrow> cell \<Rightarrow> string" where
  "astype_str L (Str s) = s"
| "astype_str L (Num x) = float_repr L x"
| "astype_str L NoneV = ''None''"

text \<open>\<^verbatim>\<open>astype(float)\<close> on a column of strings: the first bad string raises.\<close>

fun floats_of :: "string list \<Rightarrow> error + pyfloat list" where
  "floats_of [] = Inr []"
| "floats_of (s # ss) =
     (case py_float s of
        Inl e \<Rightarrow> Inl e
      | Inr x \<Rightarrow> (case floats_of ss of Inl e \<Rightarrow> Inl e | Inr xs \<Rightarrow> Inr (x # xs)))"

text \<open>
  \<^verbatim>\<open>column.astype(str).str.replace('K\<close>\<open>\<ccaron>\<close>\<^verbatim>\<open>', '').str.replace(',', '').str.strip().astype(float)\<close>
\<close>

definition clean_floats :: "pylib \<Rightarrow> cell list \<Rightarrow> error + pyfloat list" where
  "clean_floats L xs = floats_of (map (\<lambda>c. clean_value (astype_str L c)) xs)"

section \<open>The interpreter state\<close>

text \<open>
  DataFrames are mutable objects: the state holds every DataFrame allocated so far, a
  reference is an index into that list, and the log holds what the module's logger wrote.
\<close>

datatype log_entry =
    Info_unique_categories nat
  | Warn_unknown_type cell
  | Info_retrieved nat nat nat nat

record pystate =
  frames :: "dataframe list"
  log :: "log_entry list"

type_synonym 'a prog = "pystate \<Rightarrow> (error + 'a) \<times> pystate"

definition ret :: "'a \<Rightarrow> 'a prog" where
  "ret x = (\<lambda>s. (Inr x, s))"

definition lift :: "error + 'a \<Rightarrow> 'a prog" where
  "lift v = (\<lambda>s. (v, s))"

definition bind :: "'a prog \<Rightarrow> ('a \<Rightarrow> 'b prog) \<Rightarrow> 'b prog" where
  "bind m f = (\<lambda>s. case m s of (Inl e, s') \<Rightarrow> (Inl e, s') | (Inr x, s') \<Rightarrow> f x s')"

definition new_frame :: "dataframe \<Rightarrow> nat prog" where
  "new_frame df = (\<lambda>s. (Inr (length (frames s)), s\<lparr>frames := frames s @ [df]\<rparr>))"

definition read_frame :: "nat \<Rightarrow> dataframe prog" where
  "read_frame r = (\<lambda>s. (Inr (frames s ! r), s))"

definition write_frame :: "nat \<Rightarrow> dataframe \<Rightarrow> unit prog" where
  "write_frame r df = (\<lambda>s. (Inr (), s\<lparr>frames := (frames s)[r := df]\<rparr>))"

definition log_msg :: "log_entry \<Rightarrow> unit prog" where
  "log_msg m = (\<lambda>s. (Inr (), s\<lparr>log := log s @ [m]\<rparr>))"

text \<open>\<^verbatim>\<open>df[dst] = df[src].astype(str)\<close>, in place\<close>

definition setitem_astype_str :: "pylib \<Rightarrow> nat \<Rightarrow> string \<Rightarrow> string \<Rightarrow> unit prog" where
  "setitem_astype_str L r dst src =
     bind (read_frame r) (\<lambda>f.
     bind (lift (column f src)) (\<lambda>xs.
     write_frame r (set_column dst (map (\<lambda>c. Str (astype_str L c)) xs) f)))"

text \<open>\<^verbatim>\<open>df[dst] = df[src]\<close> cleaned and converted as in \<open>clean_floats\<close>, in place\<close>

definition setitem_clean_floats :: "pylib \<Rightarrow> nat \<Rightarrow> string \<Rightarrow> string \<Rightarrow> unit prog" where
  "setitem_clean_floats L r dst src =
     bind (read_frame r) (\<lambda>f.
     bind (lift (column f src)) (\<lambda>xs.
     bind (lift (clean_floats L xs)) (\<lambda>vs.
     write_frame r (set_column dst (map Num vs) f))))"

section \<open>\<^verbatim>\<open>sum_values_by_criteria\<close>\<close>

text \<open>\<^verbatim>\<open>op in value_condition\<close>, and \<^verbatim>\<open>float(value_condition.replace(op, '').strip())\<close>\<close>

fun criterion_contains :: "criterion \<Rightarrow> string \<Rightarrow> bool" where
  "criterion_contains (CStr v) op = contains v op"
| "criterion_contains (CList vs) op = (Str op \<in> set vs)"

fun threshold :: "criterion \<Rightarrow> string \<Rightarrow> error + pyfloat" where
  "threshold (CStr v) op = py_float (str_strip (str_remove op v))"
| "threshold (CList vs) op = Inl AttributeError"

text \<open>Lines 111 to 122: the special key \<^verbatim>\<open>VALUE_CONDITION\<close>.\<close>

definition apply_value_condition ::
  "pylib \<Rightarrow> nat \<Rightarrow> string \<Rightarrow> (string \<times> criterion) list \<Rightarrow> nat prog" where
  "apply_value_condition L filtered_df value_column_header criteria =
     (case map_of criteria ''VALUE_CONDITION'' of
        None \<Rightarrow> ret filtered_df
      | Some value_condition \<Rightarrow>
          bind (read_frame filtered_df) (\<lambda>f.
            case query_mask L f value_column_header value_condition of
              Inr keep \<Rightarrow> new_frame (select_rows keep f)
            | Inl e \<Rightarrow>
                if criterion_contains value_condition ''>'' then
                  bind (lift (threshold value_condition ''>'')) (\<lambda>t.
                    new_frame (where_rows
                      (\<lambda>r. fless t (num_of (cell_at r value_column_header))) f))
                else if criterion_contains value_condition ''<'' then
                  bind (lift (threshold value_condition ''<'')) (\<lambda>t.
                    new_frame (where_rows
                      (\<lambda>r. fless (num_of (cell_at r value_column_header)) t) f))
                else ret filtered_df))"

text \<open>\<^verbatim>\<open>any(op in value for op in ['>', '<', '>=', '<=', '==', '!='])\<close>\<close>

definition has_operator :: "string \<Rightarrow> bool" where
  "has_operator v = list_ex (contains v) [''>'', ''<'', ''>='', ''<='', ''=='', ''!='']"

text \<open>Lines 125 to 137: the other criteria, in order.\<close>

fun process_criteria :: "pylib \<Rightarrow> nat \<Rightarrow> (string \<times> criterion) list \<Rightarrow> nat prog" where
  "process_criteria L filtered_df [] = ret filtered_df"
| "process_criteria L filtered_df ((key, value) # rest) =
     bind (read_frame filtered_df) (\<lambda>f.
       if key \<notin> set (columns f) then process_criteria L filtered_df rest
       else
         bind (case value of
                 CList vs \<Rightarrow> new_frame (where_rows (\<lambda>r. cell_at r key \<in> set vs) f)
               | CStr v \<Rightarrow>
                   if has_operator v then
                     (case query_mask L f key (CStr v) of
                        Inr keep \<Rightarrow> new_frame (select_rows keep f)
                      | Inl e \<Rightarrow> ret filtered_df)
                   else new_frame (where_rows (\<lambda>r. cell_at r key = Str v) f))
           (\<lambda>filtered_df'. process_criteria L filtered_df' rest))"

definition sum_values_by_criteria ::
  "pylib \<Rightarrow> nat \<Rightarrow> string \<Rightarrow> (string \<times> criterion) list \<Rightarrow> pyfloat prog" where
  "sum_values_by_criteria L transactions value_column_header criteria =
     bind (read_frame transactions) (\<lambda>t.
       if is_empty t then ret (Fin 0)
       else
         bind (new_frame t) (\<lambda>filtered_df.
           if value_column_header \<notin> set (columns t) then ret (Fin 0)
           else
             bind (setitem_astype_str L filtered_df value_column_header value_column_header) (\<lambda>_.
             bind (setitem_clean_floats L filtered_df value_column_header value_column_header) (\<lambda>_.
             bind (apply_value_condition L filtered_df value_column_header criteria) (\<lambda>filtered_df.
             bind (process_criteria L filtered_df (AList.delete ''VALUE_CONDITION'' criteria))
               (\<lambda>filtered_df.
             bind (read_frame filtered_df) (\<lambda>f.
             lift (sum_column f value_column_header))))))))"

text \<open>\<^verbatim>\<open>df = df[pred(df[c])]\<close>: a new DataFrame of the rows whose cell in column \<open>c\<close> passes.\<close>

definition filter_by_column :: "nat \<Rightarrow> string \<Rightarrow> (cell \<Rightarrow> bool) \<Rightarrow> nat prog" where
  "filter_by_column r c P =
     bind (read_frame r) (\<lambda>f.
     bind (lift (column f c)) (\<lambda>_.
     new_frame (where_rows (\<lambda>row. P (cell_at row c)) f)))"

section \<open>\<^verbatim>\<open>get_all_categories\<close>\<close>

text \<open>\<^verbatim>\<open>Series.unique()\<close>: the distinct values in order of first appearance\<close>

fun unique :: "'a list \<Rightarrow> 'a list" where
  "unique [] = []"
| "unique (x # xs) = x # unique (filter (\<lambda>y. y \<noteq> x) xs)"

text \<open>\<^verbatim>\<open>notna()\<close> on a cell\<close>

definition notna :: "cell \<Rightarrow> bool" where
  "notna c = (c \<noteq> NoneV \<and> c \<noteq> Num NaN)"

text \<open>\<^verbatim>\<open>series.iloc[0]\<close>\<close>

definition iloc0 :: "'a list \<Rightarrow> error + 'a" where
  "iloc0 xs = (case xs of [] \<Rightarrow> Inl IndexError | x # _ \<Rightarrow> Inr x)"

text \<open>
  The loop of lines 52 to 63 over the unique categories; \<open>df\<close> is the filtered
  DataFrame, which the loop only reads.
\<close>

fun classify ::
  "dataframe \<Rightarrow> cell list \<Rightarrow> cell list \<times> cell list \<times> cell list \<times> cell list
     \<Rightarrow> (cell list \<times> cell list \<times> cell list \<times> cell list) prog" where
  "classify df [] acc = ret acc"
| "classify df (category # rest) (income_categories, expense_categories, saving_categories,
       investing_categories) =
     bind (lift (column df ''TYPE'')) (\<lambda>_.
     bind (lift (iloc0 (map (\<lambda>r. cell_at r ''TYPE'')
                         (filter (\<lambda>r. cell_at r ''CATEGORY'' = category) (rows df))))) (\<lambda>cat_type.
       if cat_type = Str ''income'' then
         classify df rest (income_categories @ [category], expense_categories,
           saving_categories, investing_categories)
       else if cat_type = Str ''expense'' then
         classify df rest (income_categories, expense_categories @ [category],
           saving_categories, investing_categories)
       else if cat_type = Str ''saving'' then
         classify df rest (income_categories, expense_categories,
           saving_categories @ [category], investing_categories)
       else if cat_type = Str ''investment'' then
         classify df rest (income_categories, expense_categories,
           saving_categories, investing_categories @ [category])
       else
         bind (log_msg (Warn_unknown_type category)) (\<lambda>_.
           classify df rest (income_categories, expense_categories,
             saving_categories, investing_categories))))"

text \<open>Lines 69 to 78: the lists padded with \<^verbatim>\<open>None\<close> to one length, as a DataFrame.\<close>

definition pad :: "nat \<Rightarrow> cell list \<Rightarrow> cell list" where
  "pad max_len lst = lst @ replicate (max_len - length lst) NoneV"

definition categories_frame ::
  "cell list \<Rightarrow> cell list \<Rightarrow> cell list \<Rightarrow> cell list \<Rightarrow> dataframe" where
  "categories_frame income_categories expense_categories saving_categories investing_categories =
     (let max_len = max (max (length income_categories) (length expense_categories))
                        (max (length saving_categories) (length investing_categories))
      in \<lparr>columns = [''income'', ''expense'', ''saving'', ''investment''],
          rows = map (\<lambda>(a, b, c, d).
                        [(''income'', a), (''expense'', b), (''saving'', c), (''investment'', d)])
                   (zip (pad max_len income_categories)
                     (zip (pad max_len expense_categories)
                       (zip (pad max_len saving_categories)
                            (pad max_len investing_categories))))\<rparr>)"

definition get_all_categories :: "nat \<Rightarrow> nat prog" where
  "get_all_categories df =
     bind (filter_by_column df ''CATEGORY'' (\<lambda>c. c \<noteq> Str ''Exclude'')) (\<lambda>df.
     bind (filter_by_column df ''CATEGORY'' (\<lambda>c. c \<noteq> Str ''Starting Balance'')) (\<lambda>df.
     bind (filter_by_column df ''CATEGORY'' (\<lambda>c. c \<noteq> Str [])) (\<lambda>df.
     bind (filter_by_column df ''CATEGORY'' notna) (\<lambda>df.
     bind (filter_by_column df ''CATEGORY'' (\<lambda>c. c \<noteq> Str ''None'')) (\<lambda>df.
     bind (read_frame df) (\<lambda>f.
     bind (lift (column f ''CATEGORY'')) (\<lambda>cats.
     let unique_categories = unique cats in
     bind (log_msg (Info_unique_categories (length unique_categories))) (\<lambda>_.
     bind (classify f unique_categories ([], [], [], [])) (\<lambda>(income_categories,
         expense_categories, saving_categories, investing_categories).
     bind (log_msg (Info_retrieved (length income_categories) (length expense_categories)
             (length saving_categories) (length investing_categories))) (\<lambda>_.
     new_frame (categories_frame income_categories expense_categories saving_categories
                  investing_categories)))))))))))"

section \<open>\<^verbatim>\<open>top_5_highest_transactions\<close>\<close>

text \<open>
  \<^verbatim>\<open>df.nlargest(n, c)\<close>: the rows in descending order of column \<open>c\<close>, rows of equal
  value in their original order (\<^verbatim>\<open>keep='first'\<close>), rows with a missing value last; the
  first \<open>n\<close> of them. The key orders the floats that are not \<open>NaN\<close>.
\<close>

fun float_key :: "pyfloat \<Rightarrow> int \<times> rat" where
  "float_key NInf = (- 1, 0)"
| "float_key (Fin a) = (0, a)"
| "float_key PInf = (1, 0)"
| "float_key NaN = (2, 0)"

definition sort_descending :: "('a \<Rightarrow> pyfloat) \<Rightarrow> 'a list \<Rightarrow> 'a list" where
  "sort_descending v xs = rev (sort_key (\<lambda>x. float_key (v x)) (rev xs))"

definition nlargest :: "nat \<Rightarrow> string \<Rightarrow> dataframe \<Rightarrow> dataframe" where
  "nlargest n c df =
     (let v = (\<lambda>r. num_of (cell_at r c))
      in df\<lparr>rows := take n (sort_descending v (filter (\<lambda>r. v r \<noteq> NaN) (rows df))
                             @ filter (\<lambda>r. v r = NaN) (rows df))\<rparr>)"

definition top_5_highest_transactions :: "pylib \<Rightarrow> nat \<Rightarrow> string \<Rightarrow> string \<Rightarrow> nat prog" where
  "top_5_highest_transactions L transactions category month =
     bind (read_frame transactions) (\<lambda>t.
     bind (new_frame t) (\<lambda>filtered_df.
     bind (if category \<noteq> [] then filter_by_column filtered_df ''CATEGORY'' (\<lambda>c. c = Str category)
           else ret filtered_df) (\<lambda>filtered_df.
     bind (if month \<noteq> [] then filter_by_column filtered_df ''MONTH'' (\<lambda>c. c = Str month)
           else ret filtered_df) (\<lambda>filtered_df.
     bind (setitem_clean_floats L filtered_df ''VALUE_NUMERIC'' ''VALUE'') (\<lambda>_.
     bind (read_frame filtered_df) (\<lambda>f.
     bind (new_frame (nlargest 5 ''VALUE_NUMERIC'' f)) (\<lambda>top_5_df.
     bind (read_frame top_5_df) (\<lambda>f5.
     bind (lift (drop_column ''VALUE_NUMERIC'' f5)) (\<lambda>dropped.
     new_frame dropped)))))))))"

section \<open>Grouping\<close>

text \<open>
  \<^verbatim>\<open>df.groupby(key)[val].sum()\<close>: one entry per key that is not missing, with the sum of
  its rows. The entries are listed in order of first appearance of the key; pandas lists
  them sorted by key.
\<close>

definition groupby_sum :: "dataframe \<Rightarrow> string \<Rightarrow> string \<Rightarrow> error + (cell \<times> pyfloat) list" where
  "groupby_sum df key val =
     (if key \<notin> set (columns df) \<or> val \<notin> set (columns df) then Inl KeyError
      else Inr (map (\<lambda>k. (k, nansum (map (\<lambda>r. num_of (cell_at r val))
                                        (filter (\<lambda>r. cell_at r key = k) (rows df)))))
                  (unique (filter notna (map (\<lambda>r. cell_at r key) (rows df))))))"

section \<open>\<^verbatim>\<open>sum_expenses_by_category\<close>\<close>

text \<open>\<^verbatim>\<open>if month:\<close> for an argument that is \<^verbatim>\<open>None\<close> or a string\<close>

fun truthy :: "string option \<Rightarrow> bool" where
  "truthy None = False"
| "truthy (Some m) = (m \<noteq> [])"

text \<open>
  Lines 208 to 213, after the group sums: absolute values, the entries above zero, and
  the default when nothing is left. A dictionary is the list of its entries.
\<close>

definition to_expenses_dict :: "(cell \<times> pyfloat) list \<Rightarrow> (cell \<times> pyfloat) list" where
  "to_expenses_dict totals =
     (let expenses = map (\<lambda>(k, v). (k, fabs v)) totals;
          expenses_dict = filter (\<lambda>(k, v). fless (Fin 0) v) expenses
      in if expenses_dict \<noteq> [] then expenses_dict else [(Str ''No Expenses'', Fin 0)])"

definition sum_expenses_by_category ::
  "pylib \<Rightarrow> nat \<Rightarrow> cell list \<Rightarrow> string option \<Rightarrow> ((cell \<times> pyfloat) list) prog" where
  "sum_expenses_by_category L df expense_cats month =
     bind (read_frame df) (\<lambda>d.
     bind (new_frame d) (\<lambda>df.
     bind (setitem_astype_str L df ''VALUE'' ''VALUE'') (\<lambda>_.
     bind (setitem_clean_floats L df ''VALUE_NUMERIC'' ''VALUE'') (\<lambda>_.
     bind (if truthy month then filter_by_column df ''MONTH'' (\<lambda>c. Some c = map_option Str month)
           else ret df) (\<lambda>df.
     bind (read_frame df) (\<lambda>f.
     bind (lift (column f ''CATEGORY'')) (\<lambda>_.
     bind (new_frame (where_rows (\<lambda>r. cell_at r ''CATEGORY'' \<in> set expense_cats
                                     \<and> fless (num_of (cell_at r ''VALUE_NUMERIC'')) (Fin 0)) f)) (\<lambda>df.
     bind (read_frame df) (\<lambda>f.
     bind (lift (groupby_sum f ''CATEGORY'' ''VALUE_NUMERIC'')) (\<lambda>totals.
     ret (to_expenses_dict totals)))))))))))"

section \<open>Cashflow, profit, expense ratio\<close>

definition compute_cashflow ::
  "pylib \<Rightarrow> nat \<Rightarrow> cell list \<Rightarrow> cell list \<Rightarrow> cell list \<Rightarrow> cell list \<Rightarrow> string \<Rightarrow> pyfloat prog" where
  "compute_cashflow L transactions income_categories expense_categories saving_categories
       investing_categories month =
     (if month \<noteq> [] then
        bind (sum_values_by_criteria L transactions ''VALUE''
                [(''CATEGORY'', CList income_categories), (''MONTH'', CStr month)]) (\<lambda>total_income.
        bind (sum_values_by_criteria L transactions ''VALUE''
                [(''CATEGORY'', CList (expense_categories @ saving_categories @ investing_categories)),
                 (''MONTH'', CStr month)]) (\<lambda>total_expenses.
        ret (fadd total_income total_expenses)))
      else
        bind (sum_values_by_criteria L transactions ''VALUE''
                [(''CATEGORY'', CList income_categories)]) (\<lambda>total_income.
        bind (sum_values_by_criteria L transactions ''VALUE''
                [(''CATEGORY'', CList (expense_categories @ saving_categories @ investing_categories))])
          (\<lambda>total_expenses.
        ret (fadd total_income total_expenses))))"

definition compute_profit ::
  "pylib \<Rightarrow> nat \<Rightarrow> cell list \<Rightarrow> cell list \<Rightarrow> string \<Rightarrow> pyfloat prog" where
  "compute_profit L transactions income_categories expense_categories month =
     (if month \<noteq> [] then
        bind (sum_values_by_criteria L transactions ''VALUE''
                [(''CATEGORY'', CList income_categories), (''MONTH'', CStr month)]) (\<lambda>total_income.
        bind (sum_values_by_criteria L transactions ''VALUE''
                [(''CATEGORY'', CList expense_categories), (''MONTH'', CStr month)]) (\<lambda>total_expenses.
        ret (fadd total_income total_expenses)))
      else
        bind (sum_values_by_criteria L transactions ''VALUE''
                [(''CATEGORY'', CList income_categories)]) (\<lambda>total_income.
        bind (sum_values_by_criteria L transactions ''VALUE''
                [(''CATEGORY'', CList expense_categories)]) (\<lambda>total_expenses.
        ret (fadd total_income total_expenses))))"

definition calculate_expense_ratio ::
  "pylib \<Rightarrow> nat \<Rightarrow> cell list \<Rightarrow> cell list \<Rightarrow> string \<Rightarrow> pyfloat prog" where
  "calculate_expense_ratio L transactions income_categories expense_categories month =
     bind (if month \<noteq> [] then
             bind (sum_values_by_criteria L transactions ''VALUE''
                     [(''CATEGORY'', CList income_categories), (''MONTH'', CStr month)])
               (\<lambda>total_income.
             bind (sum_values_by_criteria L transactions ''VALUE''
                     [(''CATEGORY'', CList expense_categories), (''MONTH'', CStr month)]) (\<lambda>e.
             ret (total_income, fabs e)))
           else
             bind (sum_values_by_criteria L transactions ''VALUE''
                     [(''CATEGORY'', CList income_categories)]) (\<lambda>total_income.
             bind (sum_values_by_criteria L transactions ''VALUE''
                     [(''CATEGORY'', CList expense_categories)]) (\<lambda>e.
             ret (total_income, fabs e))))
       (\<lambda>(total_income, total_expenses).
          if feq total_income (Fin 0) then ret PInf
          else lift (fdiv total_expenses total_income))"

section \<open>\<^verbatim>\<open>sum_amount_in_each_account\<close>\<close>

text \<open>The two assignments of lines 297 and 300 write into the caller's DataFrame.\<close>

definition sum_amount_in_each_account :: "pylib \<Rightarrow> nat \<Rightarrow> nat prog" where
  "sum_amount_in_each_account L transactions =
     bind (setitem_astype_str L transactions ''VALUE'' ''VALUE'') (\<lambda>_.
     bind (setitem_clean_floats L transactions ''VALUE_NUMERIC'' ''VALUE'') (\<lambda>_.
     bind (read_frame transactions) (\<lambda>t.
     bind (lift (groupby_sum t ''ACCOUNT'' ''VALUE_NUMERIC'')) (\<lambda>totals.
     new_frame \<lparr>columns = [''ACCOUNT'', ''VALUE_NUMERIC''],
                rows = map (\<lambda>(k, v). [(''ACCOUNT'', k), (''VALUE_NUMERIC'', Num v)]) totals\<rparr>))))"

section \<open>Example tables\<close>

text \<open>A table of one transaction whose value is the text \<^verbatim>\<open>abc\<close>.\<close>

definition bad_table :: dataframe where
  "bad_table =
     \<lparr>columns = [''VALUE'', ''CATEGORY'', ''ACCOUNT''],
      rows = [[(''VALUE'', Str ''abc''), (''CATEGORY'', Str ''Rent''), (''ACCOUNT'', Str ''Bank'')]]\<rparr>"

text \<open>
  A hand-built table of three transactions: income +1000, expense -400, saving -200.
\<close>

definition fixture :: dataframe where
  "fixture =
     \<lparr>columns = [''CATEGORY'', ''TYPE'', ''MONTH'', ''ACCOUNT'', ''VALUE''],
      rows = [[(''CATEGORY'', Str ''Salary''), (''TYPE'', Str ''income''), (''MONTH'', Str ''May''),
               (''ACCOUNT'', Str ''Bank''), (''VALUE'', Str ''1000'')],
              [(''CATEGORY'', Str ''Rent''), (''TYPE'', Str ''expense''), (''MONTH'', Str ''May''),
               (''ACCOUNT'', Str ''Bank''), (''VALUE'', Str ''-400'')],
              [(''CATEGORY'', Str ''Fund''), (''TYPE'', Str ''saving''), (''MONTH'', Str ''May''),
               (''ACCOUNT'', Str ''Cash''), (''VALUE'', Str ''-200'')]]\<rparr>"

text \<open>Four transactions with equal values among them.\<close>

definition ties_table :: dataframe where
  "ties_table =
     \<lparr>columns = [''CATEGORY'', ''VALUE''],
      rows = [[(''CATEGORY'', Str ''Rent''), (''VALUE'', Str ''5'')],
              [(''CATEGORY'', Str ''Food''), (''VALUE'', Str ''7'')],
              [(''CATEGORY'', Str ''Fuel''), (''VALUE'', Str ''5'')],
              [(''CATEGORY'', Str ''Gift''), (''VALUE'', Str ''7'')]]\<rparr>"


text \<open>A table as \<^verbatim>\<open>get_transactions\<close> builds it, with the column \<^verbatim>\<open>VALUE_NUMERIC\<close>.\<close>

definition ingested :: dataframe where
  "ingested =
     \<lparr>columns = [''CATEGORY'', ''MONTH'', ''VALUE'', ''VALUE_NUMERIC''],
      rows = [[(''CATEGORY'', Str ''Salary''), (''MONTH'', Str ''May''),
               (''VALUE'', Str ''1000''), (''VALUE_NUMERIC'', Num (Fin 1000))],
              [(''CATEGORY'', Str ''Rent''), (''MONTH'', Str ''May''),
               (''VALUE'', Str ''-400''), (''VALUE_NUMERIC'', Num (Fin (- 400)))]]\<rparr>"

text \<open>
  The library used in the examples: its query evaluator rejects every expression, and its
  float rendering is never called, since the value columns of the examples hold strings.
\<close>

definition example_lib :: pylib where
  "example_lib = \<lparr>query_mask = (\<lambda>df key value. Inl SyntaxError), float_repr = (\<lambda>x. ''nan'')\<rparr>"

text \<open>
  A categories table: a category with two rows of different types, a type that is none of
  the four, a starting balance and a missing category.
\<close>

definition categories_table :: dataframe where
  "categories_table =
     \<lparr>columns = [''CATEGORY'', ''TYPE''],
      rows = [[(''CATEGORY'', Str ''Salary''), (''TYPE'', Str ''income'')],
              [(''CATEGORY'', Str ''Rent''), (''TYPE'', Str ''expense'')],
              [(''CATEGORY'', Str ''Starting Balance''), (''TYPE'', Str ''income'')],
              [(''CATEGORY'', Str ''Misc''), (''TYPE'', Str ''transfer'')],
              [(''CATEGORY'', NoneV), (''TYPE'', Str ''expense'')],
              [(''CATEGORY'', Str ''Rent''), (''TYPE'', Str ''income'')]]\<rparr>"

section \<open>Auxiliary notions for the proofs\<close>

text \<open>
  \<open>preserves n Q m\<close>: run in a state with at least \<open>n\<close> DataFrames, the program \<open>m\<close>
  leaves the first \<open>n\<close> as they are, removes none, and its result satisfies \<open>Q\<close>.
\<close>

definition preserves :: "nat \<Rightarrow> ('a \<Rightarrow> bool) \<Rightarrow> 'a prog \<Rightarrow> bool" where
  "preserves n Q m =
     (\<forall>s. n \<le> length (frames s) \<longrightarrow>
        (case m s of (res, s') \<Rightarrow>
           take n (frames s') = take n (frames s) \<and> length (frames s) \<le> length (frames s')
           \<and> (\<forall>x. res = Inr x \<longrightarrow> Q x)))"

text \<open>
  The sum the specification speaks of: \<open>vs\<close> are the values of the rows of \<open>f\<close>, in
  order, and \<open>sum_where f vs P\<close> adds those of the rows that satisfy \<open>P\<close>.
\<close>

definition sum_where :: "dataframe \<Rightarrow> pyfloat list \<Rightarrow> (row \<Rightarrow> bool) \<Rightarrow> pyfloat" where
  "sum_where f vs P = nansum (map snd (filter (\<lambda>(r, v). P r) (zip (rows f) vs)))"

text \<open>
  The working copy of \<^verbatim>\<open>sum_values_by_criteria\<close> after its two assignments to the
  value column \<open>c\<close>, when the values convert to the floats \<open>vs\<close>.
\<close>

definition normalized :: "pylib \<Rightarrow> string \<Rightarrow> pyfloat list \<Rightarrow> dataframe \<Rightarrow> dataframe" where
  "normalized L c vs f =
     set_column c (map Num vs)
       (set_column c (map (\<lambda>r. Str (astype_str L (cell_at r c))) (rows f)) f)"

text \<open>
  The rows \<^verbatim>\<open>sum_expenses_by_category\<close> keeps, with their values: those of the month,
  when one is given, whose category is in the list and whose value is below zero.
\<close>

definition expense_rows ::
  "dataframe \<Rightarrow> pyfloat list \<Rightarrow> cell list \<Rightarrow> string option \<Rightarrow> (row \<times> pyfloat) list" where
  "expense_rows f vs expense_cats month =
     filter (\<lambda>(r, v). (truthy month \<longrightarrow> Some (cell_at r ''MONTH'') = map_option Str month)
                      \<and> cell_at r ''CATEGORY'' \<in> set expense_cats
                      \<and> fless v (Fin 0))
       (zip (rows f) vs)"

text \<open>
  The working copy of \<^verbatim>\<open>sum_expenses_by_category\<close> after its two assignments, when the
  values convert to the floats \<open>vs\<close>.
\<close>

definition expense_frame :: "pylib \<Rightarrow> pyfloat list \<Rightarrow> dataframe \<Rightarrow> dataframe" where
  "expense_frame L vs f =
     set_column ''VALUE_NUMERIC'' (map Num vs)
       (set_column ''VALUE'' (map (\<lambda>r. Str (astype_str L (cell_at r ''VALUE''))) (rows f)) f)"

text \<open>The rows of the DataFrame a call returned, if it returned one.\<close>

definition returned_rows :: "(error + nat) \<times> pystate \<Rightarrow> row list option" where
  "returned_rows res = (case res of (Inr r, s) \<Rightarrow> Some (rows (frames s ! r)) | (Inl e, s) \<Rightarrow> None)"

text \<open>
  The rows \<^verbatim>\<open>top_5_highest_transactions\<close> keeps: an empty argument is no filter.
\<close>

definition matching :: "string \<Rightarrow> string \<Rightarrow> row \<Rightarrow> bool" where
  "matching category month r =
     ((category \<noteq> [] \<longrightarrow> cell_at r ''CATEGORY'' = Str category)
      \<and> (month \<noteq> [] \<longrightarrow> cell_at r ''MONTH'' = Str month))"

text \<open>
  The categories \<^verbatim>\<open>get_all_categories\<close> keeps: its five filters, as one predicate on
  the cell.
\<close>

definition included :: "cell \<Rightarrow> bool" where
  "included c = (c \<noteq> Str ''Exclude'' \<and> c \<noteq> Str ''Starting Balance'' \<and> c \<noteq> Str []
                 \<and> notna c \<and> c \<noteq> Str ''None'')"

text \<open>The \<^verbatim>\<open>TYPE\<close> of the first row of \<open>f\<close> whose category is \<open>c\<close>.\<close>

definition first_type :: "dataframe \<Rightarrow> cell \<Rightarrow> cell" where
  "first_type f c =
     (case filter (\<lambda>r. cell_at r ''CATEGORY'' = c) (rows f) of
        [] \<Rightarrow> NoneV
      | r # _ \<Rightarrow> cell_at r ''TYPE'')"

text \<open>The kept categories of \<open>f\<close>, each once, in the order of their first rows.\<close>

definition categories_of :: "dataframe \<Rightarrow> cell list" where
  "categories_of f = unique (filter included (map (\<lambda>r. cell_at r ''CATEGORY'') (rows f)))"

text \<open>The kept categories whose first row has the type \<open>kind\<close>.\<close>

definition bucket :: "dataframe \<Rightarrow> string \<Rightarrow> cell list" where
  "bucket f kind = filter (\<lambda>c. first_type f c = Str kind) (categories_of f)"

text \<open>The kept categories whose first row has none of the four types.\<close>

definition unknown_types :: "dataframe \<Rightarrow> cell list" where
  "unknown_types f =
     filter (\<lambda>c. first_type f c \<notin> set [Str ''income'', Str ''expense'', Str ''saving'',
                                        Str ''investment''])
       (categories_of f)"

text \<open>The DataFrame a call returned, if it returned one.\<close>

definition returned_frame :: "(error + nat) \<times> pystate \<Rightarrow> dataframe option" where
  "returned_frame res = (case res of (Inr r, s) \<Rightarrow> Some (frames s ! r) | (Inl e, s) \<Rightarrow> None)"

text \<open>
  The criteria loop and the final sum of \<^verbatim>\<open>sum_values_by_criteria\<close>, run on a new
  DataFrame \<open>f\<close>.
\<close>

definition sum_remaining :: "pylib \<Rightarrow> string \<Rightarrow> (string \<times> criterion) list \<Rightarrow> dataframe \<Rightarrow> pyfloat prog" where
  "sum_remaining L value_column_header criteria f =
     bind (new_frame f) (\<lambda>filtered_df.
     bind (process_criteria L filtered_df criteria) (\<lambda>filtered_df.
     bind (read_frame filtered_df) (\<lambda>g. lift (sum_column g value_column_header))))"

section \<open>Running a program step by step\<close>

lemma bind_ret [simp]: "bind (ret x) f = f x"
  by (simp add: bind_def ret_def)

lemma bind_lift_Inr [simp]: "bind (lift (Inr x)) f = f x"
  by (simp add: bind_def lift_def)

lemma bind_lift_Inl [simp]: "bind (lift (Inl e)) f = lift (Inl e)"
  by (simp add: bind_def lift_def)

lemma bind_read_frame [simp]: "bind (read_frame r) f s = f (frames s ! r) s"
  by (simp add: bind_def read_frame_def)

lemma bind_new_frame [simp]:
  "bind (new_frame df) f s = f (length (frames s)) (s\<lparr>frames := frames s @ [df]\<rparr>)"
  by (simp add: bind_def new_frame_def)

lemma bind_write_frame [simp]:
  "bind (write_frame r df) f s = f () (s\<lparr>frames := (frames s)[r := df]\<rparr>)"
  by (simp add: bind_def write_frame_def)

lemma bind_log_msg [simp]: "bind (log_msg m) f s = f () (s\<lparr>log := log s @ [m]\<rparr>)"
  by (simp add: bind_def log_msg_def)

lemma bind_assoc: "bind (bind m f) g = bind m (\<lambda>x. bind (f x) g)"
  by (auto simp: bind_def fun_eq_iff split: prod.splits sum.splits)

lemma lift_apply: "lift v s = (v, s)"
  by (simp add: lift_def)

lemma ret_apply: "ret x s = (Inr x, s)"
  by (simp add: ret_def)

lemma bind_Pair_Inr: "bind (Pair (Inr x)) f = f x"
  by (simp add: bind_def)

lemma bind_Pair_Inl: "bind (Pair (Inl e)) f = Pair (Inl e)"
  by (simp add: bind_def)

lemma new_frame_apply [simp]:
  "new_frame df s = (Inr (length (frames s)), s\<lparr>frames := frames s @ [df]\<rparr>)"
  by (simp add: new_frame_def)

lemma to_float_abc: "py_float (clean_value ''abc'') = Inl ValueError"
  by code_simp

lemmas run_simps =
  is_empty_def setitem_astype_str_def setitem_clean_floats_def bind_assoc column_def
  set_column_def cell_at_def clean_floats_def filter_by_column_def where_rows_def
  lift_apply ret_apply bind_Pair_Inr bind_Pair_Inl

text \<open>
  C3. Claim: malformed numeric values coerce to 0.0 and no operation raises. On the table
  above every operation that reads the values raises \<^verbatim>\<open>ValueError\<close>, from
  \<^verbatim>\<open>astype(float)\<close>, whatever the library parameters are.
\<close>

theorem malformed_value_raises:
  "fst (sum_values_by_criteria L 0 ''VALUE'' [] \<lparr>frames = [bad_table], log = []\<rparr>)
     = Inl ValueError
   \<and> fst (top_5_highest_transactions L 0 [] [] \<lparr>frames = [bad_table], log = []\<rparr>)
     = Inl ValueError
   \<and> fst (sum_expenses_by_category L 0 [Str ''Rent''] None \<lparr>frames = [bad_table], log = []\<rparr>)
     = Inl ValueError
   \<and> fst (sum_amount_in_each_account L 0 \<lparr>frames = [bad_table], log = []\<rparr>)
     = Inl ValueError
   \<and> fst (compute_cashflow L 0 [] [Str ''Rent''] [] [] [] \<lparr>frames = [bad_table], log = []\<rparr>)
     = Inl ValueError
   \<and> fst (compute_profit L 0 [] [Str ''Rent''] [] \<lparr>frames = [bad_table], log = []\<rparr>)
     = Inl ValueError
   \<and> fst (calculate_expense_ratio L 0 [] [Str ''Rent''] [] \<lparr>frames = [bad_table], log = []\<rparr>)
     = Inl ValueError"
  by (simp add: sum_values_by_criteria_def top_5_highest_transactions_def
      sum_expenses_by_category_def sum_amount_in_each_account_def compute_cashflow_def
      compute_profit_def calculate_expense_ratio_def bad_table_def run_simps to_float_abc)

section \<open>Which DataFrames a call changes\<close>

lemma preserves_weaken: "preserves n P m \<Longrightarrow> (\<And>x. P x \<Longrightarrow> Q x) \<Longrightarrow> preserves n Q m"
  by (fastforce simp: preserves_def split: prod.splits)

lemma preserves_ret: "Q x \<Longrightarrow> preserves n Q (ret x)"
  by (simp add: preserves_def ret_def)

lemma preserves_lift: "(\<And>x. v = Inr x \<Longrightarrow> Q x) \<Longrightarrow> preserves n Q (lift v)"
  by (simp add: preserves_def lift_def)

lemma preserves_new_frame: "preserves n (\<lambda>r. n \<le> r) (new_frame df)"
  by (simp add: preserves_def)

lemma preserves_read_frame: "preserves n (\<lambda>_. True) (read_frame r)"
  by (simp add: preserves_def read_frame_def)

lemma preserves_write_frame: "n \<le> r \<Longrightarrow> preserves n (\<lambda>_. True) (write_frame r df)"
  by (simp add: preserves_def write_frame_def)

lemma preserves_log_msg: "preserves n (\<lambda>_. True) (log_msg e)"
  by (simp add: preserves_def log_msg_def)

lemma preserves_bind:
  assumes "preserves n P m" and "\<And>x. P x \<Longrightarrow> preserves n Q (f x)"
  shows "preserves n Q (bind m f)"
  unfolding preserves_def
proof (intro allI impI)
  fix s :: pystate assume n: "n \<le> length (frames s)"
  obtain res s1 where m: "m s = (res, s1)" by (cases "m s")
  from assms(1) n m have 1: "take n (frames s1) = take n (frames s)"
    "length (frames s) \<le> length (frames s1)" "\<And>x. res = Inr x \<Longrightarrow> P x"
    by (auto simp: preserves_def)
  show "case bind m f s of (res, s') \<Rightarrow>
           take n (frames s') = take n (frames s) \<and> length (frames s) \<le> length (frames s')
           \<and> (\<forall>x. res = Inr x \<longrightarrow> Q x)"
  proof (cases res)
    case (Inl e)
    then show ?thesis using m 1 by (simp add: bind_def)
  next
    case (Inr x)
    then have "preserves n Q (f x)" using assms(2) 1(3) by simp
    moreover have "n \<le> length (frames s1)" using n 1(2) by simp
    ultimately have "case f x s1 of (res, s') \<Rightarrow>
           take n (frames s') = take n (frames s1) \<and> length (frames s1) \<le> length (frames s')
           \<and> (\<forall>x. res = Inr x \<longrightarrow> Q x)" by (simp add: preserves_def)
    then show ?thesis using m Inr 1 by (auto simp: bind_def split: prod.splits)
  qed
qed

lemma preserves_if:
  "(c \<Longrightarrow> preserves n Q a) \<Longrightarrow> (\<not> c \<Longrightarrow> preserves n Q b) \<Longrightarrow> preserves n Q (if c then a else b)"
  by simp

lemmas pres_step = preserves_bind [OF preserves_read_frame] preserves_bind [OF preserves_new_frame]
  preserves_bind [OF preserves_write_frame] preserves_bind [OF preserves_log_msg]
  preserves_bind [OF preserves_lift [where Q = "\<lambda>_. True"]]

lemma preserves_setitem_astype_str:
  "n \<le> r \<Longrightarrow> preserves n (\<lambda>_. True) (setitem_astype_str L r dst src)"
  unfolding setitem_astype_str_def
  by (intro pres_step preserves_write_frame) auto

lemma preserves_setitem_clean_floats:
  "n \<le> r \<Longrightarrow> preserves n (\<lambda>_. True) (setitem_clean_floats L r dst src)"
  unfolding setitem_clean_floats_def
  by (intro pres_step preserves_write_frame) auto

lemma preserves_filter_by_column: "preserves n (\<lambda>r. n \<le> r) (filter_by_column r c P)"
  unfolding filter_by_column_def
  by (intro pres_step preserves_new_frame) auto

lemmas pres_ops = pres_step preserves_bind [OF preserves_filter_by_column]
  preserves_bind [OF preserves_setitem_astype_str] preserves_bind [OF preserves_setitem_clean_floats]

lemma preserves_bind_if_ref:
  "preserves n (\<lambda>r. n \<le> r) a \<Longrightarrow> preserves n (\<lambda>r. n \<le> r) b
   \<Longrightarrow> (\<And>x. n \<le> x \<Longrightarrow> preserves n Q (f x))
   \<Longrightarrow> preserves n Q (bind (if c then a else b) f)"
  by (rule preserves_bind [where P = "\<lambda>r. n \<le> r"]) auto

lemma preserves_apply_value_condition:
  "n \<le> r \<Longrightarrow> preserves n (\<lambda>r. n \<le> r) (apply_value_condition L r c crit)"
  unfolding apply_value_condition_def
  by (auto split: option.splits sum.splits
      intro!: pres_ops preserves_ret preserves_new_frame)

lemma preserves_process_criteria:
  "n \<le> r \<Longrightarrow> preserves n (\<lambda>r. n \<le> r) (process_criteria L r crit)"
proof (induction crit arbitrary: r)
  case Nil
  then show ?case by (simp add: preserves_ret)
next
  case (Cons kv crit)
  obtain key val where kv: "kv = (key, val)" by (cases kv)
  have step: "preserves n (\<lambda>r. n \<le> r)
     (case val of
        CList vs \<Rightarrow> new_frame (where_rows (\<lambda>r. cell_at r key \<in> set vs) f)
      | CStr v \<Rightarrow>
          if has_operator v then
            (case query_mask L f key (CStr v) of
               Inr keep \<Rightarrow> new_frame (select_rows keep f)
             | Inl e \<Rightarrow> ret r)
          else new_frame (where_rows (\<lambda>r. cell_at r key = Str v) f))" for f :: dataframe
    using Cons.prems
    by (auto split: criterion.splits sum.splits intro!: preserves_ret preserves_new_frame)
  show ?case
    unfolding kv process_criteria.simps
  proof (rule preserves_bind [OF preserves_read_frame], rule preserves_if)
    fix f assume "key \<notin> set (columns f)"
    show "preserves n (\<lambda>r. n \<le> r) (process_criteria L r crit)"
      by (rule Cons.IH [OF Cons.prems])
  next
    fix f
    show "preserves n (\<lambda>r. n \<le> r)
       (bind (case val of
                CList vs \<Rightarrow> new_frame (where_rows (\<lambda>r. cell_at r key \<in> set vs) f)
              | CStr v \<Rightarrow>
                  if has_operator v then
                    (case query_mask L f key (CStr v) of
                       Inr keep \<Rightarrow> new_frame (select_rows keep f)
                     | Inl e \<Rightarrow> ret r)
                  else new_frame (where_rows (\<lambda>r. cell_at r key = Str v) f))
             (\<lambda>filtered_df'. process_criteria L filtered_df' crit))"
      by (rule preserves_bind [OF step]) (rule Cons.IH)
  qed
qed

lemma preserves_sum_values_by_criteria:
  "preserves n (\<lambda>_. True) (sum_values_by_criteria L t c crit)"
  unfolding sum_values_by_criteria_def
  by (auto intro!: pres_ops preserves_ret preserves_lift
        preserves_bind [OF preserves_apply_value_condition]
        preserves_bind [OF preserves_process_criteria])

lemma preserves_top_5: "preserves n (\<lambda>_. True) (top_5_highest_transactions L t c m)"
  unfolding top_5_highest_transactions_def
  by (auto intro!: pres_ops preserves_bind_if_ref preserves_ret preserves_filter_by_column
        preserves_weaken [OF preserves_new_frame])

lemma preserves_sum_expenses:
  "preserves n (\<lambda>_. True) (sum_expenses_by_category L t cats m)"
  unfolding sum_expenses_by_category_def
  by (auto intro!: pres_ops preserves_bind_if_ref preserves_ret preserves_filter_by_column)

lemma preserves_compute_cashflow:
  "preserves n (\<lambda>_. True) (compute_cashflow L t a b c d m)"
  unfolding compute_cashflow_def
  by (auto intro!: preserves_bind [OF preserves_sum_values_by_criteria] preserves_ret)

lemma preserves_compute_profit:
  "preserves n (\<lambda>_. True) (compute_profit L t a b m)"
  unfolding compute_profit_def
  by (auto intro!: preserves_bind [OF preserves_sum_values_by_criteria] preserves_ret)

lemma preserves_calculate_expense_ratio:
  "preserves n (\<lambda>_. True) (calculate_expense_ratio L t a b m)"
  unfolding calculate_expense_ratio_def
  by (rule preserves_bind [where P = "\<lambda>_. True"])
     (auto intro!: preserves_bind [OF preserves_sum_values_by_criteria] preserves_ret
        preserves_lift)

lemma preserves_classify: "preserves n (\<lambda>_. True) (classify df cs acc)"
  by (induction df cs acc rule: classify.induct)
     (auto intro!: pres_ops preserves_ret simp del: bind_lift_Inr bind_lift_Inl)

lemma preserves_get_all_categories: "preserves n (\<lambda>_. True) (get_all_categories t)"
  unfolding get_all_categories_def Let_def
  by (auto intro!: pres_ops preserves_bind [OF preserves_classify]
        preserves_weaken [OF preserves_new_frame])

lemma preservesD:
  "preserves n Q m \<Longrightarrow> n \<le> length (frames s) \<Longrightarrow> m s = (res, s')
   \<Longrightarrow> take n (frames s') = take n (frames s)"
  unfolding preserves_def by (drule spec [of _ s]) simp

lemma preserves_nth:
  assumes "preserves (length (frames s)) Q m" and "r < length (frames s)"
  shows "frames (snd (m s)) ! r = frames s ! r"
proof -
  obtain res s' where m: "m s = (res, s')" by (cases "m s")
  have "take (length (frames s)) (frames s') = take (length (frames s)) (frames s)"
    by (rule preservesD [OF assms(1) _ m]) simp
  then have "take (length (frames s)) (frames s') ! r = frames s ! r" by simp
  then show ?thesis using assms(2) m by simp
qed

section \<open>Running the composite steps\<close>

lemma parse_1000: "py_float (clean_value ''1000'') = Inr (Fin 1000)" by code_simp
lemma parse_m400: "py_float (clean_value ''-400'') = Inr (Fin (- 400))" by code_simp
lemma parse_m200: "py_float (clean_value ''-200'') = Inr (Fin (- 200))" by code_simp

lemmas parse_simps = parse_1000 parse_m400 parse_m200

lemma run_filter_by_column:
  "bind (filter_by_column r c P) k s =
     (if c \<in> set (columns (frames s ! r))
      then k (length (frames s))
             (s\<lparr>frames := frames s @ [where_rows (\<lambda>row. P (cell_at row c)) (frames s ! r)]\<rparr>)
      else (Inl KeyError, s))"
  by (simp add: filter_by_column_def bind_assoc column_def lift_apply)

lemma run_setitem_astype_str:
  "bind (setitem_astype_str L r dst src) k s =
     (case column (frames s ! r) src of
        Inl e \<Rightarrow> (Inl e, s)
      | Inr xs \<Rightarrow> k () (s\<lparr>frames := (frames s)
            [r := set_column dst (map (\<lambda>c. Str (astype_str L c)) xs) (frames s ! r)]\<rparr>))"
  by (cases "column (frames s ! r) src") (simp_all add: setitem_astype_str_def bind_assoc lift_apply)

lemma run_setitem_clean_floats:
  "bind (setitem_clean_floats L r dst src) k s =
     (case column (frames s ! r) src of
        Inl e \<Rightarrow> (Inl e, s)
      | Inr xs \<Rightarrow>
          (case clean_floats L xs of
             Inl e \<Rightarrow> (Inl e, s)
           | Inr vs \<Rightarrow> k () (s\<lparr>frames := (frames s)
                 [r := set_column dst (map Num vs) (frames s ! r)]\<rparr>)))"
  by (cases "column (frames s ! r) src"; cases "clean_floats L (projr (column (frames s ! r) src))")
     (simp_all add: setitem_clean_floats_def bind_assoc lift_apply)

lemma run_lift:
  "bind (lift v) k s = (case v of Inl e \<Rightarrow> (Inl e, s) | Inr x \<Rightarrow> k x s)"
  by (cases v) (simp_all add: lift_apply)

lemma run_bind_if:
  "bind (if c then a else b) k s = (if c then bind a k s else bind b k s)"
  by simp

lemma columns_where_rows [simp]: "columns (where_rows P f) = columns f"
  by (simp add: where_rows_def)

lemma columns_select_rows [simp]: "columns (select_rows m f) = columns f"
  by (simp add: select_rows_def)

lemma columns_nlargest [simp]: "columns (nlargest n c f) = columns f"
  by (simp add: nlargest_def Let_def)

lemma columns_set_column [simp]:
  "columns (set_column c vs f) = (if c \<in> set (columns f) then columns f else columns f @ [c])"
  by (simp add: set_column_def)

lemma drop_column_Inr:
  "drop_column c f = Inr d \<Longrightarrow>
     columns d = removeAll c (columns f) \<and> (\<forall>row \<in> set (rows d). map_of row c = None)"
  by (auto simp: drop_column_def delete_conv split: if_splits)

lemma drop_column_set_column [simp]:
  "drop_column c (nlargest n c' (set_column c vs f)) =
     Inr \<lparr>columns = removeAll c (columns f),
          rows = map (AList.delete c) (rows (nlargest n c' (set_column c vs f)))\<rparr>"
  by (simp add: drop_column_def)

lemmas run_ops = run_filter_by_column run_setitem_astype_str run_setitem_clean_floats run_bind_if
  run_lift lift_apply ret_apply

section \<open>C10: the schema of the top-5 table\<close>

text \<open>
  C10. Whenever \<^verbatim>\<open>top_5_highest_transactions\<close> returns a table, its columns are those of
  the input table without \<^verbatim>\<open>VALUE_NUMERIC\<close>: the returned table has no column
  \<^verbatim>\<open>VALUE_NUMERIC\<close> and none of its rows has a cell under that label, also when the input
  table had such a column.
\<close>

theorem top_5_drops_value_numeric:
  "fst (top_5_highest_transactions L t cat mo s) = Inr r'
   \<Longrightarrow> columns (frames (snd (top_5_highest_transactions L t cat mo s)) ! r')
         = removeAll ''VALUE_NUMERIC'' (columns (frames s ! t))
       \<and> ''VALUE_NUMERIC'' \<notin> set (columns (frames (snd (top_5_highest_transactions L t cat mo s)) ! r'))
       \<and> (\<forall>row \<in> set (rows (frames (snd (top_5_highest_transactions L t cat mo s)) ! r')).
             map_of row ''VALUE_NUMERIC'' = None)"
  unfolding top_5_highest_transactions_def
  by (auto simp: run_ops nth_append list_update_append nth_list_update delete_conv
        split: if_splits sum.splits)

theorem top_5_drops_value_numeric_witness:
  "fst (top_5_highest_transactions example_lib 0 [] [] \<lparr>frames = [ingested], log = []\<rparr>) = Inr 3
   \<and> ''VALUE_NUMERIC'' \<in> set (columns ingested)
   \<and> columns (frames (snd (top_5_highest_transactions example_lib 0 [] []
          \<lparr>frames = [ingested], log = []\<rparr>)) ! 3) = [''CATEGORY'', ''MONTH'', ''VALUE'']"
proof -
  have 1: "fst (top_5_highest_transactions example_lib 0 [] [] \<lparr>frames = [ingested], log = []\<rparr>) = Inr 3"
    by (simp add: top_5_highest_transactions_def ingested_def run_simps parse_simps nlargest_def
        drop_column_def)
  show ?thesis using 1 top_5_drops_value_numeric [OF 1] by (simp add: ingested_def)
qed

section \<open>C2: which tables a call changes\<close>

lemma sum_amount_other:
  "r < length (frames s) \<Longrightarrow> r \<noteq> t
   \<Longrightarrow> frames (snd (sum_amount_in_each_account L t s)) ! r = frames s ! r"
  unfolding sum_amount_in_each_account_def
  by (auto simp: run_ops nth_append nth_list_update split: sum.splits)

lemma column_set_column_same:
  "length vs = length (rows f) \<Longrightarrow> column (set_column c vs f) c = Inr vs"
  by (auto simp: column_def set_column_def cell_at_def update_conv map_idI
      intro!: nth_equalityI)

lemma sum_amount_own:
  assumes "t < length (frames s)" "column (frames s ! t) ''VALUE'' = Inr xs"
    "clean_floats L xs = Inr vs"
  shows "frames (snd (sum_amount_in_each_account L t s)) ! t
          = set_column ''VALUE_NUMERIC'' (map Num vs)
              (set_column ''VALUE'' (map (\<lambda>c. Str (astype_str L c)) xs) (frames s ! t))"
proof -
  have len: "length xs = length (rows (frames s ! t))"
    using assms(2) by (auto simp: column_def split: if_splits)
  have 1: "column (set_column ''VALUE'' (map (\<lambda>c. Str (astype_str L c)) xs) (frames s ! t)) ''VALUE''
      = Inr (map (\<lambda>c. Str (astype_str L c)) xs)"
    by (rule column_set_column_same) (simp add: len)
  have 2: "clean_floats L (map (\<lambda>c. Str (astype_str L c)) xs) = Inr vs"
    using assms(3) by (simp add: clean_floats_def comp_def)
  show ?thesis
    unfolding sum_amount_in_each_account_def
    using assms(1,2) 1 2
    by (auto simp: run_ops nth_append nth_list_update split: sum.splits)
qed

text \<open>
  C2, as amended. A DataFrame that exists before the call is the same after a call of
  \<^verbatim>\<open>sum_values_by_criteria\<close>, \<^verbatim>\<open>top_5_highest_transactions\<close>,
  \<^verbatim>\<open>sum_expenses_by_category\<close>, \<^verbatim>\<open>compute_cashflow\<close>, \<^verbatim>\<open>compute_profit\<close>,
  \<^verbatim>\<open>calculate_expense_ratio\<close> and \<^verbatim>\<open>get_all_categories\<close>, whatever the arguments and
  whether the call returns or raises. \<^verbatim>\<open>sum_amount_in_each_account\<close> leaves every table
  other than its argument as it is; in its argument, when the values convert, it rewrites
  \<^verbatim>\<open>VALUE\<close> as strings and writes the floats into \<^verbatim>\<open>VALUE_NUMERIC\<close>.
\<close>

theorem tables_unchanged_except_account_sums:
  "r < length (frames s) \<Longrightarrow>
     frames (snd (sum_values_by_criteria L t col crit s)) ! r = frames s ! r
   \<and> frames (snd (top_5_highest_transactions L t cat mo s)) ! r = frames s ! r
   \<and> frames (snd (sum_expenses_by_category L t cats mon s)) ! r = frames s ! r
   \<and> frames (snd (compute_cashflow L t incs exps savs invs mo s)) ! r = frames s ! r
   \<and> frames (snd (compute_profit L t incs exps mo s)) ! r = frames s ! r
   \<and> frames (snd (calculate_expense_ratio L t incs exps mo s)) ! r = frames s ! r
   \<and> frames (snd (get_all_categories t s)) ! r = frames s ! r
   \<and> (r \<noteq> t \<longrightarrow> frames (snd (sum_amount_in_each_account L t s)) ! r = frames s ! r)
   \<and> (column (frames s ! r) ''VALUE'' = Inr xs \<and> clean_floats L xs = Inr vs \<longrightarrow>
        frames (snd (sum_amount_in_each_account L r s)) ! r
          = set_column ''VALUE_NUMERIC'' (map Num vs)
              (set_column ''VALUE'' (map (\<lambda>c. Str (astype_str L c)) xs) (frames s ! r)))"
  by (simp add: preserves_nth [OF preserves_sum_values_by_criteria]
      preserves_nth [OF preserves_top_5] preserves_nth [OF preserves_sum_expenses]
      preserves_nth [OF preserves_compute_cashflow] preserves_nth [OF preserves_compute_profit]
      preserves_nth [OF preserves_calculate_expense_ratio]
      preserves_nth [OF preserves_get_all_categories] sum_amount_other sum_amount_own)

text \<open>
  C2 as stated fails for \<^verbatim>\<open>sum_amount_in_each_account\<close>: on the three-row table the
  caller's DataFrame has one more column after the call.
\<close>

theorem account_sums_change_the_table:
  "frames (snd (sum_amount_in_each_account example_lib 0 \<lparr>frames = [fixture], log = []\<rparr>)) ! 0
     \<noteq> frames \<lparr>frames = [fixture], log = []\<rparr> ! 0"
proof
  assume "frames (snd (sum_amount_in_each_account example_lib 0 \<lparr>frames = [fixture], log = []\<rparr>)) ! 0
     = frames \<lparr>frames = [fixture], log = []\<rparr> ! 0"
  then have "columns (frames (snd (sum_amount_in_each_account example_lib 0
      \<lparr>frames = [fixture], log = []\<rparr>)) ! 0) = columns fixture" by simp
  then show False
    by (simp add: sum_amount_in_each_account_def fixture_def run_simps parse_simps groupby_sum_def)
qed

theorem tables_unchanged_except_account_sums_witness:
  "(1::nat) < length (frames \<lparr>frames = [bad_table, fixture], log = []\<rparr>)
   \<and> (1::nat) \<noteq> 0
   \<and> column (frames \<lparr>frames = [bad_table, fixture], log = []\<rparr> ! 1) ''VALUE''
       = Inr [Str ''1000'', Str ''-400'', Str ''-200'']
   \<and> clean_floats example_lib [Str ''1000'', Str ''-400'', Str ''-200'']
       = Inr [Fin 1000, Fin (- 400), Fin (- 200)]
   \<and> frames (snd (top_5_highest_transactions example_lib 0 [] []
        \<lparr>frames = [bad_table, fixture], log = []\<rparr>)) ! 1 = fixture
   \<and> frames (snd (sum_amount_in_each_account example_lib 0
        \<lparr>frames = [bad_table, fixture], log = []\<rparr>)) ! 1 = fixture
   \<and> columns (frames (snd (sum_amount_in_each_account example_lib 1
        \<lparr>frames = [bad_table, fixture], log = []\<rparr>)) ! 1)
       = [''CATEGORY'', ''TYPE'', ''MONTH'', ''ACCOUNT'', ''VALUE'', ''VALUE_NUMERIC'']"
proof -
  have c: "column (frames \<lparr>frames = [bad_table, fixture], log = []\<rparr> ! 1) ''VALUE''
       = Inr [Str ''1000'', Str ''-400'', Str ''-200'']"
    by (simp add: fixture_def column_def cell_at_def)
  have f: "clean_floats example_lib [Str ''1000'', Str ''-400'', Str ''-200'']
       = Inr [Fin 1000, Fin (- 400), Fin (- 200)]"
    by (simp add: clean_floats_def parse_simps)
  show ?thesis
    using c f tables_unchanged_except_account_sums [where r = 1
        and s = "\<lparr>frames = [bad_table, fixture], log = []\<rparr>" and L = example_lib and t = 0
        and cat = "[]" and mo = "[]" and xs = "[Str ''1000'', Str ''-400'', Str ''-200'']"
        and vs = "[Fin 1000, Fin (- 400), Fin (- 200)]"]
    by (simp add: fixture_def)
qed

section \<open>What \<^verbatim>\<open>sum_values_by_criteria\<close> computes\<close>

lemma cell_at_update [simp]:
  "cell_at (AList.update c v r) c' = (if c = c' then v else cell_at r c')"
  by (simp add: cell_at_def update_conv)

lemma length_floats_of: "floats_of ss = Inr vs \<Longrightarrow> length vs = length ss"
  by (induction ss arbitrary: vs) (auto split: sum.splits)

lemma length_clean_floats: "clean_floats L xs = Inr vs \<Longrightarrow> length vs = length xs"
  by (auto simp: clean_floats_def dest: length_floats_of)

lemma columnD: "column f c = Inr xs \<Longrightarrow> c \<in> set (columns f) \<and> xs = map (\<lambda>r. cell_at r c) (rows f)"
  by (auto simp: column_def split: if_splits)

lemma rows_set_column_map:
  "rows (set_column c (map g (rows f)) f) = map (\<lambda>r. AList.update c (g r) r) (rows f)"
  by (simp add: set_column_def zip_map2 zip_same_conv_map)

lemma rows_set_column:
  "rows (set_column c ws f) = map (\<lambda>(r, v). AList.update c v r) (zip (rows f) ws)"
  by (simp add: set_column_def)

lemma rows_normalized:
  "rows (normalized L c vs f) = map (\<lambda>(r, v). AList.update c (Num v) r) (zip (rows f) vs)"
proof -
  have "rows (normalized L c vs f) =
      map (\<lambda>(r, v). AList.update c v r)
        (zip (map (\<lambda>r. AList.update c (Str (astype_str L (cell_at r c))) r) (rows f)) (map Num vs))"
    unfolding normalized_def by (subst rows_set_column) (simp only: rows_set_column_map)
  also have "\<dots> = map (\<lambda>(r, v). AList.update c (Num v) r) (zip (rows f) vs)"
    by (simp add: zip_map_map case_prod_unfold)
  finally show ?thesis .
qed

lemma columns_normalized [simp]: "c \<in> set (columns f) \<Longrightarrow> columns (normalized L c vs f) = columns f"
  by (simp add: normalized_def)

lemma clean_floats_astype:
  "clean_floats L (map (\<lambda>r. Str (astype_str L (g r))) rs) = clean_floats L (map g rs)"
  by (simp add: clean_floats_def comp_def)

lemma run_sum_values:
  assumes "column (frames s ! t) col = Inr xs" and "clean_floats L xs = Inr vs"
    and "rows (frames s ! t) \<noteq> []"
  shows "sum_values_by_criteria L t col crit s =
     bind (apply_value_condition L (length (frames s)) col crit) (\<lambda>r.
     bind (process_criteria L r (AList.delete ''VALUE_CONDITION'' crit)) (\<lambda>r.
     bind (read_frame r) (\<lambda>f. lift (sum_column f col))))
       (s\<lparr>frames := frames s @ [normalized L col vs (frames s ! t)]\<rparr>)"
proof -
  from assms(1) have c: "col \<in> set (columns (frames s ! t))"
    and xs: "xs = map (\<lambda>r. cell_at r col) (rows (frames s ! t))"
    by (auto dest: columnD)
  have ne: "\<not> is_empty (frames s ! t)" using c assms(3) by (auto simp: is_empty_def)
  have 0: "column (frames s ! t) col = Inr (map (\<lambda>r. cell_at r col) (rows (frames s ! t)))"
    using assms(1) xs by simp
  have 2: "clean_floats L (map (\<lambda>r. cell_at r col) (rows (frames s ! t))) = Inr vs"
    using assms(2) xs by simp
  show ?thesis
    unfolding sum_values_by_criteria_def
    using ne c
    by (simp add: run_ops 0 2 column_set_column_same clean_floats_astype
        normalized_def comp_def nth_append list_update_append)
qed

lemma where_rows_where_rows: "where_rows P (where_rows Q f) = where_rows (\<lambda>r. Q r \<and> P r) f"
  by (simp add: where_rows_def)

lemma sum_column_where_normalized:
  assumes "col \<in> set (columns f)" and "\<And>r v. P (AList.update col (Num v) r) = Q r"
  shows "sum_column (where_rows P (normalized L col vs f)) col = Inr (sum_where f vs Q)"
proof -
  have "map (\<lambda>r. num_of (cell_at r col))
          (filter P (map (\<lambda>(r, v). AList.update col (Num v) r) zs))
        = map snd (filter (\<lambda>(r, v). Q r) zs)" for zs :: "(row \<times> pyfloat) list"
    by (induction zs) (auto simp: assms(2))
  then show ?thesis
    using assms(1)
    by (simp add: sum_column_def column_def where_rows_def rows_normalized sum_where_def comp_def)
qed

lemma no_value_condition:
  "map_of crit ''VALUE_CONDITION'' = None \<Longrightarrow> apply_value_condition L r col crit = ret r"
  by (simp add: apply_value_condition_def)

lemma sum_values_empty:
  "rows (frames s ! t) = [] \<Longrightarrow> sum_values_by_criteria L t col crit s = (Inr (Fin 0), s)"
  by (simp add: sum_values_by_criteria_def is_empty_def ret_apply)

lemma sum_where_Nil [simp]: "rows f = [] \<Longrightarrow> sum_where f vs P = Fin 0"
  by (simp add: sum_where_def nansum_def)

lemma sum_values_category:
  assumes "column (frames s ! t) ''VALUE'' = Inr xs" and "clean_floats L xs = Inr vs"
    and "''CATEGORY'' \<in> set (columns (frames s ! t))"
  shows "fst (sum_values_by_criteria L t ''VALUE'' [(''CATEGORY'', CList cs)] s)
           = Inr (sum_where (frames s ! t) vs (\<lambda>r. cell_at r ''CATEGORY'' \<in> set cs))"
proof (cases "rows (frames s ! t) = []")
  case True
  then show ?thesis by (simp add: sum_values_empty)
next
  case False
  from assms(1) have v: "''VALUE'' \<in> set (columns (frames s ! t))" by (auto dest: columnD)
  show ?thesis
    using assms(3) v
    by (simp add: run_sum_values [OF assms(1,2) False] no_value_condition lift_apply bind_assoc nth_append
        sum_column_where_normalized)
qed

lemma sum_values_category_month:
  assumes "column (frames s ! t) ''VALUE'' = Inr xs" and "clean_floats L xs = Inr vs"
    and "''CATEGORY'' \<in> set (columns (frames s ! t))"
    and "''MONTH'' \<in> set (columns (frames s ! t))" and "\<not> has_operator mo"
  shows "fst (sum_values_by_criteria L t ''VALUE'' [(''CATEGORY'', CList cs), (''MONTH'', CStr mo)] s)
           = Inr (sum_where (frames s ! t) vs
                   (\<lambda>r. cell_at r ''CATEGORY'' \<in> set cs \<and> cell_at r ''MONTH'' = Str mo))"
proof (cases "rows (frames s ! t) = []")
  case True
  then show ?thesis by (simp add: sum_values_empty)
next
  case False
  from assms(1) have v: "''VALUE'' \<in> set (columns (frames s ! t))" by (auto dest: columnD)
  show ?thesis
    using assms(3,4,5) v
    by (simp add: run_sum_values [OF assms(1,2) False] no_value_condition lift_apply bind_assoc nth_append
        where_rows_where_rows sum_column_where_normalized)
qed

section \<open>C4: cashflow and profit\<close>

lemma fst_bind:
  "fst (bind m k s) = (case fst (m s) of Inl e \<Rightarrow> Inl e | Inr x \<Rightarrow> fst (k x (snd (m s))))"
  by (cases "m s") (auto simp: bind_def split: sum.splits)

lemma sum_values_keeps:
  "t < length (frames s) \<Longrightarrow> frames (snd (sum_values_by_criteria L t c crit s)) ! t = frames s ! t"
  by (rule preserves_nth [OF preserves_sum_values_by_criteria])

lemma sum_values_month:
  assumes "column (frames s ! t) ''VALUE'' = Inr xs" and "clean_floats L xs = Inr vs"
    and "''CATEGORY'' \<in> set (columns (frames s ! t))"
    and "mo \<noteq> [] \<longrightarrow> ''MONTH'' \<in> set (columns (frames s ! t)) \<and> \<not> has_operator mo"
  shows "fst (if mo \<noteq> [] then sum_values_by_criteria L t ''VALUE''
                 [(''CATEGORY'', CList cs), (''MONTH'', CStr mo)] s
              else sum_values_by_criteria L t ''VALUE'' [(''CATEGORY'', CList cs)] s)
           = Inr (sum_where (frames s ! t) vs
                   (\<lambda>r. cell_at r ''CATEGORY'' \<in> set cs \<and> (mo = [] \<or> cell_at r ''MONTH'' = Str mo)))"
  using assms by (simp add: sum_values_category sum_values_category_month)

lemma parse_m700: "py_float (clean_value ''-700'') = Inr (Fin (- 700))" by code_simp

lemmas eval_simps = sum_values_by_criteria_def run_simps parse_simps parse_m700
  apply_value_condition_def sum_column_def nansum_def fst_bind has_operator_def

lemma fixture_cashflow:
  "fst (compute_cashflow example_lib 0 [Str ''Salary''] [Str ''Rent''] [Str ''Fund''] [] []
          \<lparr>frames = [fixture], log = []\<rparr>) = Inr (Fin 400)"
  by (simp add: compute_cashflow_def fixture_def eval_simps)

lemma fixture_profit:
  "fst (compute_profit example_lib 0 [Str ''Salary''] [Str ''Rent''] []
          \<lparr>frames = [fixture], log = []\<rparr>) = Inr (Fin 600)"
  by (simp add: compute_profit_def fixture_def eval_simps)



text \<open>
  C4. On a table with the columns \<^verbatim>\<open>VALUE\<close> and \<^verbatim>\<open>CATEGORY\<close> (and \<^verbatim>\<open>MONTH\<close>, when a
  month without comparison operator is given) whose values all convert to floats,
  \<^verbatim>\<open>compute_cashflow\<close> returns the sum of the values of the rows in an income category
  plus the sum of the values of the rows whose category is in the union of the expense,
  saving and investment categories, and \<^verbatim>\<open>compute_profit\<close> returns the income sum plus
  the sum over the expense categories only; the month restricts both sums in the same
  way. On the three-row table cashflow is 400 and profit is 600.
\<close>

theorem cashflow_and_profit:
  assumes "t < length (frames s)"
    and "column (frames s ! t) ''VALUE'' = Inr xs" and "clean_floats L xs = Inr vs"
    and "''CATEGORY'' \<in> set (columns (frames s ! t))"
    and "mo \<noteq> [] \<longrightarrow> ''MONTH'' \<in> set (columns (frames s ! t)) \<and> \<not> has_operator mo"
  shows "fst (compute_cashflow L t incs exps savs invs mo s)
           = Inr (fadd (sum_where (frames s ! t) vs
                          (\<lambda>r. cell_at r ''CATEGORY'' \<in> set incs
                                \<and> (mo = [] \<or> cell_at r ''MONTH'' = Str mo)))
                       (sum_where (frames s ! t) vs
                          (\<lambda>r. cell_at r ''CATEGORY'' \<in> set exps \<union> set savs \<union> set invs
                                \<and> (mo = [] \<or> cell_at r ''MONTH'' = Str mo))))
       \<and> fst (compute_profit L t incs exps mo s)
           = Inr (fadd (sum_where (frames s ! t) vs
                          (\<lambda>r. cell_at r ''CATEGORY'' \<in> set incs
                                \<and> (mo = [] \<or> cell_at r ''MONTH'' = Str mo)))
                       (sum_where (frames s ! t) vs
                          (\<lambda>r. cell_at r ''CATEGORY'' \<in> set exps
                                \<and> (mo = [] \<or> cell_at r ''MONTH'' = Str mo))))
       \<and> fst (compute_cashflow example_lib 0 [Str ''Salary''] [Str ''Rent''] [Str ''Fund''] [] []
                \<lparr>frames = [fixture], log = []\<rparr>) = Inr (Fin 400)
       \<and> fst (compute_profit example_lib 0 [Str ''Salary''] [Str ''Rent''] []
                \<lparr>frames = [fixture], log = []\<rparr>) = Inr (Fin 600)"
proof -
  have a: "fst (if mo \<noteq> [] then sum_values_by_criteria L t ''VALUE''
                 [(''CATEGORY'', CList cs), (''MONTH'', CStr mo)] s'
              else sum_values_by_criteria L t ''VALUE'' [(''CATEGORY'', CList cs)] s')
           = Inr (sum_where (frames s ! t) vs
                   (\<lambda>r. cell_at r ''CATEGORY'' \<in> set cs \<and> (mo = [] \<or> cell_at r ''MONTH'' = Str mo)))"
    if "frames s' ! t = frames s ! t" for s' cs
    using sum_values_month [of s' t xs L vs mo cs] assms(2-5) that by simp
  have b: "frames (snd (sum_values_by_criteria L t ''VALUE'' crit s)) ! t = frames s ! t" for crit
    by (rule sum_values_keeps [OF assms(1)])
  have g: "fst (compute_cashflow L t incs exps savs invs mo s)
           = Inr (fadd (sum_where (frames s ! t) vs
                          (\<lambda>r. cell_at r ''CATEGORY'' \<in> set incs
                                \<and> (mo = [] \<or> cell_at r ''MONTH'' = Str mo)))
                       (sum_where (frames s ! t) vs
                          (\<lambda>r. cell_at r ''CATEGORY'' \<in> set exps \<union> set savs \<union> set invs
                                \<and> (mo = [] \<or> cell_at r ''MONTH'' = Str mo))))
       \<and> fst (compute_profit L t incs exps mo s)
           = Inr (fadd (sum_where (frames s ! t) vs
                          (\<lambda>r. cell_at r ''CATEGORY'' \<in> set incs
                                \<and> (mo = [] \<or> cell_at r ''MONTH'' = Str mo)))
                       (sum_where (frames s ! t) vs
                          (\<lambda>r. cell_at r ''CATEGORY'' \<in> set exps
                                \<and> (mo = [] \<or> cell_at r ''MONTH'' = Str mo))))"
  proof (cases "mo = []")
    case True
    then show ?thesis
      using a [OF refl, where cs = incs] a [where cs = "exps @ savs @ invs", OF b]
        a [where cs = exps, OF b]
      by (simp add: compute_cashflow_def compute_profit_def fst_bind ret_apply Un_assoc)
  next
    case False
    then show ?thesis
      using a [OF refl, where cs = incs] a [where cs = "exps @ savs @ invs", OF b]
        a [where cs = exps, OF b]
      by (simp add: compute_cashflow_def compute_profit_def fst_bind ret_apply Un_assoc)
  qed
  show ?thesis using g fixture_cashflow fixture_profit by blast
qed

theorem cashflow_and_profit_witness:
  "(0::nat) < length (frames \<lparr>frames = [fixture], log = []\<rparr>)
   \<and> column (frames \<lparr>frames = [fixture], log = []\<rparr> ! 0) ''VALUE''
       = Inr [Str ''1000'', Str ''-400'', Str ''-200'']
   \<and> clean_floats example_lib [Str ''1000'', Str ''-400'', Str ''-200'']
       = Inr [Fin 1000, Fin (- 400), Fin (- 200)]
   \<and> ''CATEGORY'' \<in> set (columns (frames \<lparr>frames = [fixture], log = []\<rparr> ! 0))
   \<and> ''MONTH'' \<in> set (columns (frames \<lparr>frames = [fixture], log = []\<rparr> ! 0))
   \<and> \<not> has_operator ''May''
   \<and> fst (compute_cashflow example_lib 0 [Str ''Salary''] [Str ''Rent''] [Str ''Fund''] [] ''May''
            \<lparr>frames = [fixture], log = []\<rparr>) = Inr (Fin 400)
   \<and> fst (compute_profit example_lib 0 [Str ''Salary''] [Str ''Rent''] ''May''
            \<lparr>frames = [fixture], log = []\<rparr>) = Inr (Fin 600)"
proof -
  have c: "column (frames \<lparr>frames = [fixture], log = []\<rparr> ! 0) ''VALUE''
       = Inr [Str ''1000'', Str ''-400'', Str ''-200'']"
    by (simp add: fixture_def column_def cell_at_def)
  have f: "clean_floats example_lib [Str ''1000'', Str ''-400'', Str ''-200'']
       = Inr [Fin 1000, Fin (- 400), Fin (- 200)]"
    by (simp add: clean_floats_def parse_simps)
  have k: "''CATEGORY'' \<in> set (columns (frames \<lparr>frames = [fixture], log = []\<rparr> ! 0))"
    "''MONTH'' \<in> set (columns (frames \<lparr>frames = [fixture], log = []\<rparr> ! 0))"
    by (simp_all add: fixture_def)
  have h: "\<not> has_operator ''May''" by (simp add: has_operator_def)
  have m: "''May'' \<noteq> [] \<longrightarrow>
      ''MONTH'' \<in> set (columns (frames \<lparr>frames = [fixture], log = []\<rparr> ! 0)) \<and> \<not> has_operator ''May''"
    using k h by simp
  have z: "(0::nat) < length (frames \<lparr>frames = [fixture], log = []\<rparr>)" by simp
  show ?thesis
    using c f k h cashflow_and_profit [OF z c f k(1) m, of "[Str ''Salary'']" "[Str ''Rent'']"
        "[Str ''Fund'']" "[]"]
    by (simp add: fixture_def sum_where_def nansum_def cell_at_def)
qed

section \<open>C5: the expense ratio\<close>





section \<open>C7: expenses by category\<close>

lemma set_unique [simp]: "set (unique xs) = set xs"
  by (induction xs rule: unique.induct) auto

lemma distinct_unique [simp]: "distinct (unique xs)"
  by (induction xs rule: unique.induct) auto

lemma unique_Nil_iff [simp]: "unique xs = [] \<longleftrightarrow> xs = []"
  by (cases xs) auto

lemma map_of_keys:
  "map_of (map (\<lambda>k. (k, g k)) ks) k = (if k \<in> set ks then Some (g k) else None)"
  by (induction ks) auto

lemma rows_expense_frame:
  "rows (expense_frame L vs f) =
     map (\<lambda>(r, v). AList.update ''VALUE_NUMERIC'' (Num v)
                     (AList.update ''VALUE'' (Str (astype_str L (cell_at r ''VALUE''))) r))
       (zip (rows f) vs)"
proof -
  have "rows (expense_frame L vs f) =
      map (\<lambda>(r, v). AList.update ''VALUE_NUMERIC'' v r)
        (zip (map (\<lambda>r. AList.update ''VALUE'' (Str (astype_str L (cell_at r ''VALUE''))) r) (rows f))
             (map Num vs))"
    unfolding expense_frame_def by (subst rows_set_column) (simp only: rows_set_column_map)
  also have "\<dots> = map (\<lambda>(r, v). AList.update ''VALUE_NUMERIC'' (Num v)
                     (AList.update ''VALUE'' (Str (astype_str L (cell_at r ''VALUE''))) r))
       (zip (rows f) vs)"
    by (simp add: zip_map_map case_prod_unfold)
  finally show ?thesis .
qed

lemma columns_expense_frame:
  "''VALUE'' \<in> set (columns f) \<Longrightarrow>
     set (columns (expense_frame L vs f)) = insert ''VALUE_NUMERIC'' (set (columns f))"
  by (auto simp: expense_frame_def)

lemma map_cell_at_set_column:
  "length vs = length (rows f) \<Longrightarrow> map (\<lambda>r. cell_at r c) (rows (set_column c vs f)) = vs"
  using column_set_column_same [of vs f c] by (auto simp: column_def split: if_splits)

lemma run_sum_expenses:
  assumes "column (frames s ! t) ''VALUE'' = Inr xs" and "clean_floats L xs = Inr vs"
    and "''CATEGORY'' \<in> set (columns (frames s ! t))"
    and "truthy month \<longrightarrow> ''MONTH'' \<in> set (columns (frames s ! t))"
  shows "fst (sum_expenses_by_category L t cats month s) =
     (case groupby_sum
             (where_rows (\<lambda>r. cell_at r ''CATEGORY'' \<in> set cats
                               \<and> fless (num_of (cell_at r ''VALUE_NUMERIC'')) (Fin 0))
                (if truthy month
                 then where_rows (\<lambda>row. Some (cell_at row ''MONTH'') = map_option Str month)
                        (expense_frame L vs (frames s ! t))
                 else expense_frame L vs (frames s ! t)))
             ''CATEGORY'' ''VALUE_NUMERIC'' of
        Inl e \<Rightarrow> Inl e
      | Inr totals \<Rightarrow> Inr (to_expenses_dict totals))"
proof -
  from assms(1) have v: "''VALUE'' \<in> set (columns (frames s ! t))"
    and xs: "xs = map (\<lambda>r. cell_at r ''VALUE'') (rows (frames s ! t))"
    by (auto dest: columnD)
  have 0: "column (frames s ! t) ''VALUE'' = Inr (map (\<lambda>r. cell_at r ''VALUE'') (rows (frames s ! t)))"
    using assms(1) xs by simp
  have 2: "clean_floats L (map (\<lambda>r. cell_at r ''VALUE'') (rows (frames s ! t))) = Inr vs"
    using assms(2) xs by simp
  show ?thesis
  proof (cases "truthy month")
    case True
    then show ?thesis
      unfolding sum_expenses_by_category_def
      using v assms(3,4)
      by (simp add: run_ops 0 2 map_cell_at_set_column clean_floats_astype comp_def nth_append
          list_update_append column_def expense_frame_def split: sum.splits)
  next
    case False
    then show ?thesis
      unfolding sum_expenses_by_category_def
      using v assms(3,4)
      by (simp add: run_ops 0 2 map_cell_at_set_column clean_floats_astype comp_def nth_append
          list_update_append column_def expense_frame_def split: sum.splits)
  qed
qed

lemma fless_zero_cases: "fless v (Fin 0) \<longleftrightarrow> v = NInf \<or> (\<exists>a. v = Fin a \<and> a < 0)"
  by (cases v) auto

lemma foldl_fadd_negative:
  assumes "\<forall>v \<in> set ws. fless v (Fin 0)" and "acc = NInf \<or> (\<exists>a. acc = Fin a \<and> a \<le> 0)"
  shows "(foldl fadd acc ws = NInf \<or> (\<exists>a. foldl fadd acc ws = Fin a \<and> a \<le> 0))
       \<and> fabs (foldl fadd acc ws) = foldl fadd (fabs acc) (map fabs ws)
       \<and> (ws \<noteq> [] \<longrightarrow> fless (foldl fadd acc ws) (Fin 0))
       \<and> (fless acc (Fin 0) \<longrightarrow> fless (foldl fadd acc ws) (Fin 0))"
  using assms
proof (induction ws arbitrary: acc)
  case Nil
  then show ?case by auto
next
  case (Cons w ws)
  from Cons.prems(1) have w: "w = NInf \<or> (\<exists>a. w = Fin a \<and> a < 0)"
    by (simp add: fless_zero_cases)
  have acc': "fadd acc w = NInf \<or> (\<exists>a. fadd acc w = Fin a \<and> a \<le> 0)"
    using w Cons.prems(2) by auto
  have neg: "fless (fadd acc w) (Fin 0)"
    using w Cons.prems(2) by auto
  have ab: "fabs (fadd acc w) = fadd (fabs acc) (fabs w)"
    using w Cons.prems(2) by auto
  from Cons.IH [OF _ acc'] Cons.prems(1) neg ab show ?case by simp
qed

lemma filter_not_nan_negative:
  "\<forall>v \<in> set ws. fless v (Fin 0) \<Longrightarrow> filter (\<lambda>x. x \<noteq> NaN) ws = ws"
  by (induction ws) auto

lemma filter_not_nan_abs_negative:
  "\<forall>v \<in> set ws. fless v (Fin 0) \<Longrightarrow> filter (\<lambda>x. x \<noteq> NaN) (map fabs ws) = map fabs ws"
  by (induction ws) (auto simp: fless_zero_cases)

lemma fabs_negative: "fless x (Fin 0) \<Longrightarrow> fless (Fin 0) (fabs x)"
  by (cases x) auto

lemma nansum_negative:
  assumes "\<forall>v \<in> set ws. fless v (Fin 0)"
  shows "fabs (nansum ws) = nansum (map fabs ws)"
    and "ws \<noteq> [] \<Longrightarrow> fless (Fin 0) (fabs (nansum ws))"
proof -
  have f: "(foldl fadd (Fin 0) ws = NInf \<or> (\<exists>a. foldl fadd (Fin 0) ws = Fin a \<and> a \<le> 0))
       \<and> fabs (foldl fadd (Fin 0) ws) = foldl fadd (fabs (Fin 0)) (map fabs ws)
       \<and> (ws \<noteq> [] \<longrightarrow> fless (foldl fadd (Fin 0) ws) (Fin 0))
       \<and> (fless (Fin 0) (Fin 0) \<longrightarrow> fless (foldl fadd (Fin 0) ws) (Fin 0))"
    by (rule foldl_fadd_negative [OF assms]) simp
  show "fabs (nansum ws) = nansum (map fabs ws)"
    using f by (simp add: nansum_def filter_not_nan_negative [OF assms]
        filter_not_nan_abs_negative [OF assms])
  show "fless (Fin 0) (fabs (nansum ws))" if "ws \<noteq> []"
  proof -
    from f that have "fless (foldl fadd (Fin 0) ws) (Fin 0)" by blast
    then show ?thesis
      by (simp add: nansum_def filter_not_nan_negative [OF assms] fabs_negative)
  qed
qed

lemma rows_where_rows_map:
  "rows g = map h zs \<Longrightarrow> rows (where_rows P g) = map h (filter (\<lambda>z. P (h z)) zs)"
  by (simp add: where_rows_def filter_map comp_def)

lemma rows_expense_selection:
  "rows (where_rows (\<lambda>r. cell_at r ''CATEGORY'' \<in> set cats
                          \<and> fless (num_of (cell_at r ''VALUE_NUMERIC'')) (Fin 0))
           (if truthy month
            then where_rows (\<lambda>row. Some (cell_at row ''MONTH'') = map_option Str month)
                   (expense_frame L vs f)
            else expense_frame L vs f))
   = map (\<lambda>(r, v). AList.update ''VALUE_NUMERIC'' (Num v)
                     (AList.update ''VALUE'' (Str (astype_str L (cell_at r ''VALUE''))) r))
       (expense_rows f vs cats month)"
proof (cases "truthy month")
  case True
  then show ?thesis
    by (simp add: rows_where_rows_map [OF rows_where_rows_map [OF rows_expense_frame]]
        expense_rows_def case_prod_unfold conj_commute conj_left_commute cong: filter_cong)
next
  case False
  then show ?thesis
    by (simp add: rows_where_rows_map [OF rows_expense_frame]
        expense_rows_def case_prod_unfold cong: filter_cong)
qed

lemma groupby_sum_map:
  assumes "rows g = map h zs" and "key \<in> set (columns g)" and "val \<in> set (columns g)"
    and "\<And>z. cell_at (h z) key = kf z" and "\<And>z. cell_at (h z) val = Num (snd z)"
  shows "groupby_sum g key val =
     Inr (map (\<lambda>k. (k, nansum (map snd (filter (\<lambda>z. kf z = k) zs))))
            (unique (filter notna (map kf zs))))"
  using assms by (simp add: groupby_sum_def filter_map comp_def)

lemma columns_expense_selection:
  "columns (where_rows P (if c then where_rows Q (expense_frame L vs f) else expense_frame L vs f))
     = columns (expense_frame L vs f)"
  by simp

text \<open>
  C7. On a table with the columns \<^verbatim>\<open>VALUE\<close> and \<^verbatim>\<open>CATEGORY\<close> (and \<^verbatim>\<open>MONTH\<close>, when a
  month is given) whose values all convert, \<open>sel\<close> are the rows (of the month) whose
  category is in the given list and whose value is strictly negative; rows of those
  categories with a positive value are not among them. \<^verbatim>\<open>sum_expenses_by_category\<close>
  returns one entry per category of \<open>sel\<close> that is not a missing value, with the sum of
  the absolute values of its rows; every entry is above zero; and when there is no such
  category it returns the single entry \<^verbatim>\<open>'No Expenses': 0\<close>.
\<close>

theorem expenses_by_category:
  assumes "column (frames s ! t) ''VALUE'' = Inr xs" and "clean_floats L xs = Inr vs"
    and "''CATEGORY'' \<in> set (columns (frames s ! t))"
    and "truthy month \<longrightarrow> ''MONTH'' \<in> set (columns (frames s ! t))"
    and "sel = expense_rows (frames s ! t) vs cats month"
    and "keys = filter notna (map (\<lambda>(r, v). cell_at r ''CATEGORY'') sel)"
  shows "fst (sum_expenses_by_category L t cats month s)
           = Inr (if keys = [] then [(Str ''No Expenses'', Fin 0)]
                  else map (\<lambda>k. (k, nansum (map (\<lambda>(r, v). fabs v)
                                    (filter (\<lambda>(r, v). cell_at r ''CATEGORY'' = k) sel))))
                         (unique keys))
       \<and> (\<forall>k \<in> set keys.
             fless (Fin 0) (nansum (map (\<lambda>(r, v). fabs v)
                                     (filter (\<lambda>(r, v). cell_at r ''CATEGORY'' = k) sel))))"
proof -
  let ?h = "\<lambda>(r, v). AList.update ''VALUE_NUMERIC'' (Num v)
                     (AList.update ''VALUE'' (Str (astype_str L (cell_at r ''VALUE''))) r)"
  let ?G = "\<lambda>k. nansum (map snd (filter (\<lambda>(r, v). cell_at r ''CATEGORY'' = k) sel))"
  from assms(1) have v: "''VALUE'' \<in> set (columns (frames s ! t))" by (auto dest: columnD)
  have cols: "''CATEGORY'' \<in> set (columns (expense_frame L vs (frames s ! t)))"
    "''VALUE_NUMERIC'' \<in> set (columns (expense_frame L vs (frames s ! t)))"
    using assms(3) v by (simp_all add: columns_expense_frame)
  have g: "groupby_sum
             (where_rows (\<lambda>r. cell_at r ''CATEGORY'' \<in> set cats
                               \<and> fless (num_of (cell_at r ''VALUE_NUMERIC'')) (Fin 0))
                (if truthy month
                 then where_rows (\<lambda>row. Some (cell_at row ''MONTH'') = map_option Str month)
                        (expense_frame L vs (frames s ! t))
                 else expense_frame L vs (frames s ! t)))
             ''CATEGORY'' ''VALUE_NUMERIC''
      = Inr (map (\<lambda>k. (k, ?G k)) (unique keys))"
    unfolding assms(5,6)
    by (subst groupby_sum_map [OF rows_expense_selection,
          where kf = "\<lambda>(r, v). cell_at r ''CATEGORY''"])
       (use cols in \<open>simp_all add: columns_expense_selection case_prod_unfold\<close>)
  have neg: "\<forall>x \<in> set (map snd (filter (\<lambda>(r, v). cell_at r ''CATEGORY'' = k) sel)).
      fless x (Fin 0)" for k
    unfolding assms(5) by (auto simp: expense_rows_def)
  have ne: "map snd (filter (\<lambda>(r, v). cell_at r ''CATEGORY'' = k) sel) \<noteq> []"
    if "k \<in> set keys" for k
    using that unfolding assms(6) by (auto simp: filter_empty_conv)
  have pos: "fless (Fin 0) (fabs (?G k))" if "k \<in> set keys" for k
    by (rule nansum_negative(2) [OF neg ne [OF that]])
  have ab: "fabs (?G k) = nansum (map (\<lambda>(r, v). fabs v)
                                (filter (\<lambda>(r, v). cell_at r ''CATEGORY'' = k) sel))" for k
    using nansum_negative(1) [OF neg, of k] by (simp add: comp_def case_prod_unfold)
  have keep: "filter (\<lambda>(k, v). fless (Fin 0) v) (map (\<lambda>k. (k, fabs (?G k))) (unique keys))
      = map (\<lambda>k. (k, fabs (?G k))) (unique keys)"
    using pos by (simp add: filter_id_conv)
  have d: "to_expenses_dict (map (\<lambda>k. (k, ?G k)) (unique keys))
      = (if keys = [] then [(Str ''No Expenses'', Fin 0)]
         else map (\<lambda>k. (k, fabs (?G k))) (unique keys))"
    using keep by (simp add: to_expenses_dict_def comp_def)
  have r: "fst (sum_expenses_by_category L t cats month s)
      = Inr (if keys = [] then [(Str ''No Expenses'', Fin 0)]
             else map (\<lambda>k. (k, fabs (?G k))) (unique keys))"
    by (simp add: run_sum_expenses [OF assms(1-4)] g d)
  show ?thesis
    using pos by (simp add: r ab)
qed

theorem expenses_by_category_witness:
  "column (frames \<lparr>frames = [fixture], log = []\<rparr> ! 0) ''VALUE''
       = Inr [Str ''1000'', Str ''-400'', Str ''-200'']
   \<and> clean_floats example_lib [Str ''1000'', Str ''-400'', Str ''-200'']
       = Inr [Fin 1000, Fin (- 400), Fin (- 200)]
   \<and> ''CATEGORY'' \<in> set (columns (frames \<lparr>frames = [fixture], log = []\<rparr> ! 0))
   \<and> truthy (Some ''May'')
   \<and> ''MONTH'' \<in> set (columns (frames \<lparr>frames = [fixture], log = []\<rparr> ! 0))
   \<and> fst (sum_expenses_by_category example_lib 0 [Str ''Salary'', Str ''Rent''] (Some ''May'')
            \<lparr>frames = [fixture], log = []\<rparr>) = Inr [(Str ''Rent'', Fin 400)]
   \<and> fst (sum_expenses_by_category example_lib 0 [Str ''Salary''] None
            \<lparr>frames = [fixture], log = []\<rparr>) = Inr [(Str ''No Expenses'', Fin 0)]"
proof -
  have c: "column (frames \<lparr>frames = [fixture], log = []\<rparr> ! 0) ''VALUE''
       = Inr [Str ''1000'', Str ''-400'', Str ''-200'']"
    by (simp add: fixture_def column_def cell_at_def)
  have f: "clean_floats example_lib [Str ''1000'', Str ''-400'', Str ''-200'']
       = Inr [Fin 1000, Fin (- 400), Fin (- 200)]"
    by (simp add: clean_floats_def parse_simps)
  have k: "''CATEGORY'' \<in> set (columns (frames \<lparr>frames = [fixture], log = []\<rparr> ! 0))"
    by (simp add: fixture_def)
  have m: "truthy (Some ''May'') \<longrightarrow>
        ''MONTH'' \<in> set (columns (frames \<lparr>frames = [fixture], log = []\<rparr> ! 0))"
    "truthy None \<longrightarrow>
        ''MONTH'' \<in> set (columns (frames \<lparr>frames = [fixture], log = []\<rparr> ! 0))"
    by (simp_all add: fixture_def)
  have 1: "fst (sum_expenses_by_category example_lib 0 [Str ''Salary'', Str ''Rent''] (Some ''May'')
            \<lparr>frames = [fixture], log = []\<rparr>) = Inr [(Str ''Rent'', Fin 400)]"
    using expenses_by_category [OF c f k m(1) refl refl, of "[Str ''Salary'', Str ''Rent'']"]
    by (simp add: expense_rows_def fixture_def cell_at_def notna_def nansum_def)
  have 2: "fst (sum_expenses_by_category example_lib 0 [Str ''Salary''] None
            \<lparr>frames = [fixture], log = []\<rparr>) = Inr [(Str ''No Expenses'', Fin 0)]"
    using expenses_by_category [OF c f k m(2) refl refl, of "[Str ''Salary'']"]
    by (simp add: expense_rows_def fixture_def cell_at_def notna_def nansum_def)
  have n: "truthy (Some ''May'')"
    "''MONTH'' \<in> set (columns (frames \<lparr>frames = [fixture], log = []\<rparr> ! 0))"
    by (simp_all add: fixture_def)
  show ?thesis using c f k n 1 2 by simp
qed

section \<open>C8: the five highest transactions\<close>

lemma insort_key_map: "insort_key k (h x) (map h xs) = map h (insort_key (\<lambda>y. k (h y)) x xs)"
  by (induction xs) auto

lemma sort_key_map: "sort_key k (map h xs) = map h (sort_key (\<lambda>y. k (h y)) xs)"
  by (induction xs) (auto simp: insort_key_map)

lemma sort_descending_map:
  "sort_descending v (map h xs) = map h (sort_descending (\<lambda>y. v (h y)) xs)"
  by (simp add: sort_descending_def rev_map sort_key_map)

lemma fless_float_key: "fless a b \<Longrightarrow> float_key a < float_key b"
  by (cases a; cases b) auto

lemma float_key_inj: "float_key a = float_key b \<longleftrightarrow> a = b"
  by (cases a; cases b) auto

lemma mset_sort_descending [simp]: "mset (sort_descending v xs) = mset xs"
  by (simp add: sort_descending_def)

lemma length_sort_descending [simp]: "length (sort_descending v xs) = length xs"
  by (simp add: sort_descending_def)

lemma sort_descending_ordered:
  assumes "i < j" and "j < length (sort_descending v xs)"
  shows "\<not> fless (v (sort_descending v xs ! i)) (v (sort_descending v xs ! j))"
proof -
  let ?ys = "sort_descending v xs"
  have "sorted (rev (map (\<lambda>x. float_key (v x)) ?ys))"
    by (simp add: sort_descending_def rev_map [symmetric])
  then have "map (\<lambda>x. float_key (v x)) ?ys ! j \<le> map (\<lambda>x. float_key (v x)) ?ys ! i"
    using assms by (simp add: sorted_rev_iff_nth_mono)
  then have "float_key (v (?ys ! j)) \<le> float_key (v (?ys ! i))"
    using assms by simp
  then show ?thesis using fless_float_key [of "v (?ys ! i)" "v (?ys ! j)"] by auto
qed

lemma sort_descending_stable:
  "filter (\<lambda>x. v x = a) (sort_descending v xs) = filter (\<lambda>x. v x = a) xs"
proof -
  have "filter (\<lambda>x. v x = a) (sort_descending v xs)
      = rev (filter (\<lambda>x. float_key (v x) = float_key a)
               (sort_key (\<lambda>x. float_key (v x)) (rev xs)))"
    by (simp add: sort_descending_def rev_filter float_key_inj)
  also have "\<dots> = rev (filter (\<lambda>x. float_key (v x) = float_key a) (rev xs))"
    by (simp only: sort_key_stable)
  also have "\<dots> = filter (\<lambda>x. v x = a) xs"
    by (simp add: rev_filter float_key_inj)
  finally show ?thesis .
qed

lemma where_rows_True: "where_rows (\<lambda>r. True) f = f"
  by (simp add: where_rows_def)

lemma run_top_5:
  assumes "category \<noteq> [] \<longrightarrow> ''CATEGORY'' \<in> set (columns (frames s ! t))"
    and "month \<noteq> [] \<longrightarrow> ''MONTH'' \<in> set (columns (frames s ! t))"
    and "column (where_rows (matching category month) (frames s ! t)) ''VALUE'' = Inr xs"
    and "clean_floats L xs = Inr vs"
  shows "returned_rows (top_5_highest_transactions L t category month s) =
     Some (map (AList.delete ''VALUE_NUMERIC'')
       (rows (nlargest 5 ''VALUE_NUMERIC''
          (set_column ''VALUE_NUMERIC'' (map Num vs)
             (where_rows (matching category month) (frames s ! t))))))"
proof -
  have m: "where_rows (matching category month) (frames s ! t) =
      (if category \<noteq> [] then
         (if month \<noteq> [] then
            where_rows (\<lambda>row. cell_at row ''MONTH'' = Str month)
              (where_rows (\<lambda>row. cell_at row ''CATEGORY'' = Str category) (frames s ! t))
          else where_rows (\<lambda>row. cell_at row ''CATEGORY'' = Str category) (frames s ! t))
       else
         (if month \<noteq> [] then where_rows (\<lambda>row. cell_at row ''MONTH'' = Str month) (frames s ! t)
          else frames s ! t))"
    by (simp add: where_rows_where_rows matching_def [abs_def] where_rows_True)
  show ?thesis
    using assms unfolding m top_5_highest_transactions_def returned_rows_def
    by (simp add: run_ops nth_append list_update_append split: if_splits)
qed

lemma rows_nlargest_set_column:
  "rows (nlargest n c (set_column c (map Num vs) f)) =
     map (\<lambda>(r, v). AList.update c (Num v) r)
       (take n (sort_descending snd (filter (\<lambda>(r, v). v \<noteq> NaN) (zip (rows f) vs))
                @ filter (\<lambda>(r, v). v = NaN) (zip (rows f) vs)))"
proof -
  let ?h = "\<lambda>(r, v). AList.update c (Num v) r"
  let ?zs = "zip (rows f) vs"
  have r: "rows (set_column c (map Num vs) f) = map ?h ?zs"
    by (simp add: rows_set_column zip_map2 case_prod_unfold)
  have v: "num_of (cell_at (?h z) c) = snd z" for z
    by (cases z) simp
  have 1: "filter (\<lambda>r. num_of (cell_at r c) \<noteq> NaN) (map ?h ?zs)
      = map ?h (filter (\<lambda>(r, v). v \<noteq> NaN) ?zs)"
    by (simp add: filter_map comp_def v case_prod_unfold)
  have 2: "filter (\<lambda>r. num_of (cell_at r c) = NaN) (map ?h ?zs)
      = map ?h (filter (\<lambda>(r, v). v = NaN) ?zs)"
    by (simp add: filter_map comp_def v case_prod_unfold)
  have 3: "sort_descending (\<lambda>r. num_of (cell_at r c)) (map ?h ps) = map ?h (sort_descending snd ps)"
    for ps
    by (simp add: sort_descending_map v)
  show ?thesis
    unfolding nlargest_def Let_def
    by (simp add: r 1 2 3 take_map del: take_append map_append flip: map_append)
qed

text \<open>
  C8. \<^verbatim>\<open>top_5_highest_transactions\<close> has no parameter \<open>n\<close>: it is the query for n = 5.
  \<open>sel\<close> are the rows whose category and month equal the arguments that are not empty,
  \<open>vs\<close> their values. When those values convert, the call returns a table whose rows
  are the first five of: the rows of \<open>sel\<close> with a value, in descending order of value,
  followed by the rows whose value is \<open>NaN\<close>; each without its \<^verbatim>\<open>VALUE_NUMERIC\<close> cell. The
  ordered part is a permutation of those rows, no row in it is followed by a larger one,
  rows of equal value keep their original order, and min 5 (number of rows of \<open>sel\<close>)
  rows are returned, so all of them when there are fewer than five.
\<close>

theorem top_5_rows:
  assumes "category \<noteq> [] \<longrightarrow> ''CATEGORY'' \<in> set (columns (frames s ! t))"
    and "month \<noteq> [] \<longrightarrow> ''MONTH'' \<in> set (columns (frames s ! t))"
    and "''VALUE'' \<in> set (columns (frames s ! t))"
    and "sel = filter (matching category month) (rows (frames s ! t))"
    and "clean_floats L (map (\<lambda>r. cell_at r ''VALUE'') sel) = Inr vs"
    and "ranked = sort_descending snd (filter (\<lambda>(r, v). v \<noteq> NaN) (zip sel vs))"
    and "chosen = take 5 (ranked @ filter (\<lambda>(r, v). v = NaN) (zip sel vs))"
  shows "returned_rows (top_5_highest_transactions L t category month s)
           = Some (map (\<lambda>(r, v). AList.delete ''VALUE_NUMERIC'' r) chosen)
       \<and> mset ranked = mset (filter (\<lambda>(r, v). v \<noteq> NaN) (zip sel vs))
       \<and> (\<forall>i j. i < j \<and> j < length ranked \<longrightarrow> \<not> fless (snd (ranked ! i)) (snd (ranked ! j)))
       \<and> (\<forall>a. a \<noteq> NaN \<longrightarrow>
             filter (\<lambda>(r, v). v = a) ranked = filter (\<lambda>(r, v). v = a) (zip sel vs))
       \<and> length chosen = min 5 (length sel)"
proof -
  let ?F = "where_rows (matching category month) (frames s ! t)"
  have rF: "rows ?F = sel" by (simp add: where_rows_def assms(4))
  have c: "column ?F ''VALUE'' = Inr (map (\<lambda>r. cell_at r ''VALUE'') sel)"
    using assms(3) by (simp add: column_def rF)
  have 1: "returned_rows (top_5_highest_transactions L t category month s)
           = Some (map (\<lambda>(r, v). AList.delete ''VALUE_NUMERIC'' r) chosen)"
    by (simp add: run_top_5 [OF assms(1,2) c assms(5)] rows_nlargest_set_column rF assms(6,7)
        case_prod_unfold delete_update_same comp_def)
  have 2: "mset ranked = mset (filter (\<lambda>(r, v). v \<noteq> NaN) (zip sel vs))"
    by (simp add: assms(6))
  have 3: "\<forall>i j. i < j \<and> j < length ranked \<longrightarrow> \<not> fless (snd (ranked ! i)) (snd (ranked ! j))"
    unfolding assms(6) using sort_descending_ordered [of _ _ snd] by blast
  have 4: "filter (\<lambda>(r, v). v = a) ranked = filter (\<lambda>(r, v). v = a) (zip sel vs)"
    if "a \<noteq> NaN" for a
  proof -
    have "filter (\<lambda>(r, v). v = a) ranked
        = filter (\<lambda>x. snd x = a) (filter (\<lambda>(r, v). v \<noteq> NaN) (zip sel vs))"
      unfolding assms(6) by (simp add: case_prod_unfold sort_descending_stable)
    also have "\<dots> = filter (\<lambda>(r, v). v = a) (zip sel vs)"
      using that by (auto simp: case_prod_unfold intro: filter_cong)
    finally show ?thesis .
  qed
  have lv: "length vs = length sel"
    using length_clean_floats [OF assms(5)] by simp
  have "length (ranked @ filter (\<lambda>(r, v). v = NaN) (zip sel vs)) = length (zip sel vs)"
    using sum_length_filter_compl [of "\<lambda>(r, v). v \<noteq> NaN" "zip sel vs"]
    by (simp add: assms(6) case_prod_unfold)
  then have "length chosen = min (length (zip sel vs)) 5"
    unfolding assms(7) by (simp only: length_take)
  then have 5: "length chosen = min 5 (length sel)"
    using lv by simp
  show ?thesis using 1 2 3 4 5 by blast
qed

lemma parse_5: "py_float (clean_value ''5'') = Inr (Fin 5)" by code_simp
lemma parse_7: "py_float (clean_value ''7'') = Inr (Fin 7)" by code_simp

theorem top_5_rows_witness:
  "''CATEGORY'' \<in> set (columns (frames \<lparr>frames = [ties_table], log = []\<rparr> ! 0))
   \<and> ''VALUE'' \<in> set (columns (frames \<lparr>frames = [ties_table], log = []\<rparr> ! 0))
   \<and> clean_floats example_lib
         (map (\<lambda>r. cell_at r ''VALUE'')
            (filter (matching [] []) (rows (frames \<lparr>frames = [ties_table], log = []\<rparr> ! 0))))
       = Inr [Fin 5, Fin 7, Fin 5, Fin 7]
   \<and> returned_rows (top_5_highest_transactions example_lib 0 [] []
         \<lparr>frames = [ties_table], log = []\<rparr>)
       = Some [[(''CATEGORY'', Str ''Food''), (''VALUE'', Str ''7'')],
               [(''CATEGORY'', Str ''Gift''), (''VALUE'', Str ''7'')],
               [(''CATEGORY'', Str ''Rent''), (''VALUE'', Str ''5'')],
               [(''CATEGORY'', Str ''Fuel''), (''VALUE'', Str ''5'')]]"
proof -
  have a: "[] \<noteq> [] \<longrightarrow> ''CATEGORY'' \<in> set (columns (frames \<lparr>frames = [ties_table], log = []\<rparr> ! 0))"
    "[] \<noteq> [] \<longrightarrow> ''MONTH'' \<in> set (columns (frames \<lparr>frames = [ties_table], log = []\<rparr> ! 0))"
    by simp_all
  have v: "''VALUE'' \<in> set (columns (frames \<lparr>frames = [ties_table], log = []\<rparr> ! 0))"
    by (simp add: ties_table_def)
  have f: "clean_floats example_lib
         (map (\<lambda>r. cell_at r ''VALUE'')
            (filter (matching [] []) (rows (frames \<lparr>frames = [ties_table], log = []\<rparr> ! 0))))
       = Inr [Fin 5, Fin 7, Fin 5, Fin 7]"
    by (simp add: ties_table_def matching_def cell_at_def clean_floats_def parse_5 parse_7)
  have r: "returned_rows (top_5_highest_transactions example_lib 0 [] []
         \<lparr>frames = [ties_table], log = []\<rparr>)
       = Some [[(''CATEGORY'', Str ''Food''), (''VALUE'', Str ''7'')],
               [(''CATEGORY'', Str ''Gift''), (''VALUE'', Str ''7'')],
               [(''CATEGORY'', Str ''Rent''), (''VALUE'', Str ''5'')],
               [(''CATEGORY'', Str ''Fuel''), (''VALUE'', Str ''5'')]]"
    using top_5_rows [OF a v refl f refl refl]
    by (simp add: ties_table_def matching_def sort_descending_def less_eq_prod_def)
  have k: "''CATEGORY'' \<in> set (columns (frames \<lparr>frames = [ties_table], log = []\<rparr> ! 0))"
    by (simp add: ties_table_def)
  show ?thesis using k v f r by simp
qed

section \<open>C6: the categories by type\<close>

lemma classify_run:
  assumes "''TYPE'' \<in> set (columns g)"
    and "\<forall>c \<in> set cs. \<exists>r \<in> set (rows g). cell_at r ''CATEGORY'' = c"
  shows "classify g cs (a, b, c, d) s =
     (Inr (a @ filter (\<lambda>x. first_type g x = Str ''income'') cs,
           b @ filter (\<lambda>x. first_type g x = Str ''expense'') cs,
           c @ filter (\<lambda>x. first_type g x = Str ''saving'') cs,
           d @ filter (\<lambda>x. first_type g x = Str ''investment'') cs),
      s\<lparr>log := log s @ map Warn_unknown_type
          (filter (\<lambda>x. first_type g x \<notin> set [Str ''income'', Str ''expense'', Str ''saving'',
                                              Str ''investment'']) cs)\<rparr>)"
  using assms(2)
proof (induction cs arbitrary: a b c d s)
  case Nil
  then show ?case by (simp add: ret_apply)
next
  case (Cons x cs)
  from Cons.prems obtain r rs where f: "filter (\<lambda>r. cell_at r ''CATEGORY'' = x) (rows g) = r # rs"
    by (cases "filter (\<lambda>r. cell_at r ''CATEGORY'' = x) (rows g)") (auto simp: filter_empty_conv)
  have ft: "first_type g x = cell_at r ''TYPE''" by (simp add: first_type_def f)
  have ih: "classify g cs (a', b', c', d') s' =
     (Inr (a' @ filter (\<lambda>x. first_type g x = Str ''income'') cs,
           b' @ filter (\<lambda>x. first_type g x = Str ''expense'') cs,
           c' @ filter (\<lambda>x. first_type g x = Str ''saving'') cs,
           d' @ filter (\<lambda>x. first_type g x = Str ''investment'') cs),
      s'\<lparr>log := log s' @ map Warn_unknown_type
          (filter (\<lambda>x. first_type g x \<notin> set [Str ''income'', Str ''expense'', Str ''saving'',
                                              Str ''investment'']) cs)\<rparr>)" for a' b' c' d' s'
    using Cons.IH Cons.prems by simp
  show ?case
    using assms(1)
    by (simp add: column_def iloc0_def f ft [symmetric] ih)
qed


lemma first_type_kept:
  "included c \<Longrightarrow>
     first_type (where_rows (\<lambda>r. included (cell_at r ''CATEGORY'')) f) c = first_type f c"
proof -
  assume "included c"
  then have "filter (\<lambda>r. cell_at r ''CATEGORY'' = c)
               (filter (\<lambda>r. included (cell_at r ''CATEGORY'')) (rows f))
           = filter (\<lambda>r. cell_at r ''CATEGORY'' = c) (rows f)"
    by (auto intro: filter_cong)
  then show ?thesis by (simp add: first_type_def where_rows_def)
qed

lemma filter_first_type_kept:
  "\<forall>c \<in> set cs. included c \<Longrightarrow>
     filter (\<lambda>x. P (first_type (where_rows (\<lambda>r. included (cell_at r ''CATEGORY'')) f) x)) cs
       = filter (\<lambda>x. P (first_type f x)) cs"
  by (rule filter_cong) (simp_all add: first_type_kept)

lemma run_get_all_categories:
  assumes "''CATEGORY'' \<in> set (columns (frames s ! t))"
    and "''TYPE'' \<in> set (columns (frames s ! t))"
    and "f = frames s ! t"
  shows "get_all_categories t s =
     (Inr (length (frames s) + 5),
      \<lparr>frames = frames s @
          [where_rows (\<lambda>row. cell_at row ''CATEGORY'' \<noteq> Str ''Exclude'') f,
           where_rows (\<lambda>row. cell_at row ''CATEGORY'' \<noteq> Str ''Exclude''
                              \<and> cell_at row ''CATEGORY'' \<noteq> Str ''Starting Balance'') f,
           where_rows (\<lambda>row. cell_at row ''CATEGORY'' \<noteq> Str ''Exclude''
                              \<and> cell_at row ''CATEGORY'' \<noteq> Str ''Starting Balance''
                              \<and> cell_at row ''CATEGORY'' \<noteq> Str []) f,
           where_rows (\<lambda>row. cell_at row ''CATEGORY'' \<noteq> Str ''Exclude''
                              \<and> cell_at row ''CATEGORY'' \<noteq> Str ''Starting Balance''
                              \<and> cell_at row ''CATEGORY'' \<noteq> Str []
                              \<and> notna (cell_at row ''CATEGORY'')) f,
           where_rows (\<lambda>r. included (cell_at r ''CATEGORY'')) f,
           categories_frame (bucket f ''income'') (bucket f ''expense'') (bucket f ''saving'')
             (bucket f ''investment'')],
       log = log s @ [Info_unique_categories (length (categories_of f))]
             @ map Warn_unknown_type (unknown_types f)
             @ [Info_retrieved (length (bucket f ''income'')) (length (bucket f ''expense''))
                  (length (bucket f ''saving'')) (length (bucket f ''investment''))]\<rparr>)"
proof -
  let ?g = "where_rows (\<lambda>r. included (cell_at r ''CATEGORY'')) f"
  have cats: "map (\<lambda>r. cell_at r ''CATEGORY'') (rows ?g)
      = filter included (map (\<lambda>r. cell_at r ''CATEGORY'') (rows f))"
    by (simp add: where_rows_def filter_map comp_def)
  have inc: "\<forall>c \<in> set (categories_of f). included c"
    by (simp add: categories_of_def)
  have occ: "\<forall>c \<in> set (categories_of f). \<exists>r \<in> set (rows ?g). cell_at r ''CATEGORY'' = c"
    by (auto simp: categories_of_def where_rows_def)
  have ty: "''TYPE'' \<in> set (columns ?g)" using assms(2,3) by simp
  have ft: "first_type ?g x = first_type f x" if "x \<in> set (categories_of f)" for x
    using that inc by (simp add: first_type_kept)
  have cl: "classify ?g (categories_of f) ([], [], [], []) s' =
     (Inr (bucket f ''income'', bucket f ''expense'', bucket f ''saving'', bucket f ''investment''),
      s'\<lparr>log := log s' @ map Warn_unknown_type (unknown_types f)\<rparr>)" for s'
    by (simp add: classify_run [OF ty occ] bucket_def unknown_types_def ft cong: filter_cong)
  have g: "where_rows (\<lambda>row. cell_at row ''CATEGORY'' \<noteq> Str ''Exclude''
                              \<and> cell_at row ''CATEGORY'' \<noteq> Str ''Starting Balance''
                              \<and> cell_at row ''CATEGORY'' \<noteq> Str []
                              \<and> notna (cell_at row ''CATEGORY'')
                              \<and> cell_at row ''CATEGORY'' \<noteq> Str ''None'') f = ?g"
    by (simp add: included_def)
  have bcl: "bind (classify ?g (categories_of f) ([], [], [], [])) k s' =
      k (bucket f ''income'', bucket f ''expense'', bucket f ''saving'', bucket f ''investment'')
        (s'\<lparr>log := log s' @ map Warn_unknown_type (unknown_types f)\<rparr>)" for k s'
    by (simp add: bind_def cl)
  show ?thesis
    unfolding get_all_categories_def
    using assms(1,2)
    by (simp add: run_ops assms(3) [symmetric] nth_append where_rows_where_rows conj_assoc g
        column_def Let_def cats categories_of_def [symmetric] bcl)
qed


lemma unique_snoc: "unique (xs @ [x]) = (if x \<in> set xs then unique xs else unique xs @ [x])"
proof (induction xs rule: unique.induct)
  case 1
  then show ?case by simp
next
  case (2 y ys)
  show ?case
  proof (cases "x = y")
    case True
    then show ?thesis by simp
  next
    case False
    then show ?thesis using 2 by auto
  qed
qed

lemma length_pad: "length xs \<le> n \<Longrightarrow> length (pad n xs) = n"
  by (simp add: pad_def)

lemma columns_of_categories_frame:
  assumes "n = max (max (length a) (length b)) (max (length c) (length d))"
  shows "column (categories_frame a b c d) ''income'' = Inr (pad n a)
       \<and> column (categories_frame a b c d) ''expense'' = Inr (pad n b)
       \<and> column (categories_frame a b c d) ''saving'' = Inr (pad n c)
       \<and> column (categories_frame a b c d) ''investment'' = Inr (pad n d)"
proof -
  have l: "length (pad n a) = n" "length (pad n b) = n" "length (pad n c) = n"
    "length (pad n d) = n"
    by (simp_all add: length_pad assms)
  have z: "map (\<lambda>(p, q, r, t). p) (zip A (zip B (zip C D))) = A
         \<and> map (\<lambda>(p, q, r, t). q) (zip A (zip B (zip C D))) = B
         \<and> map (\<lambda>(p, q, r, t). r) (zip A (zip B (zip C D))) = C
         \<and> map (\<lambda>(p, q, r, t). t) (zip A (zip B (zip C D))) = D"
    if "length A = n" "length B = n" "length C = n" "length D = n"
    for A B C D :: "cell list"
    using that
    by (induction n arbitrary: A B C D) (auto simp: length_Suc_conv)
  show ?thesis
    using z [OF l]
    by (simp add: column_def categories_frame_def Let_def assms [symmetric] cell_at_def
        comp_def case_prod_unfold)
qed


lemma categories_of_snoc:
  "categories_of (f\<lparr>rows := rows f @ [r]\<rparr>) =
     (if included (cell_at r ''CATEGORY'') \<and> cell_at r ''CATEGORY'' \<notin> set (categories_of f)
      then categories_of f @ [cell_at r ''CATEGORY''] else categories_of f)"
  by (simp add: categories_of_def unique_snoc)

lemma categories_of_iff:
  "c \<in> set (categories_of f) \<longleftrightarrow>
     (\<exists>r \<in> set (rows f). cell_at r ''CATEGORY'' = c)
     \<and> c \<notin> set [Str ''Exclude'', Str ''Starting Balance'', Str [], Str ''None'', NoneV, Num NaN]"
  by (auto simp: categories_of_def included_def notna_def)

text \<open>
  C6. \<^verbatim>\<open>get_all_categories\<close>, on a table with the columns \<^verbatim>\<open>CATEGORY\<close> and
  \<^verbatim>\<open>TYPE\<close>, returns the table of the four lists income, expense, saving and investment,
  each padded with missing values to the longest. The categories it classifies are those of
  the rows whose category is not \<^verbatim>\<open>Exclude\<close>, \<^verbatim>\<open>Starting Balance\<close>, the empty
  string, \<^verbatim>\<open>None\<close> or missing, each once, in the order of their first rows: a row
  appended to the table appends its category when it is kept and new. A category goes to the
  list of the type of its first row; one whose type is none of the four is in no list and is
  logged with a warning, and the call returns.
\<close>

theorem categories_classified:
  assumes "''CATEGORY'' \<in> set (columns (frames s ! t))"
    and "''TYPE'' \<in> set (columns (frames s ! t))"
    and "f = frames s ! t"
    and "n = max (max (length (bucket f ''income'')) (length (bucket f ''expense'')))
                 (max (length (bucket f ''saving'')) (length (bucket f ''investment'')))"
    and "result = categories_frame (bucket f ''income'') (bucket f ''expense'')
                    (bucket f ''saving'') (bucket f ''investment'')"
  shows "returned_frame (get_all_categories t s) = Some result
       \<and> column result ''income'' = Inr (pad n (bucket f ''income''))
       \<and> column result ''expense'' = Inr (pad n (bucket f ''expense''))
       \<and> column result ''saving'' = Inr (pad n (bucket f ''saving''))
       \<and> column result ''investment'' = Inr (pad n (bucket f ''investment''))
       \<and> (\<forall>c. c \<in> set (categories_of f) \<longleftrightarrow>
              (\<exists>r \<in> set (rows f). cell_at r ''CATEGORY'' = c)
              \<and> c \<notin> set [Str ''Exclude'', Str ''Starting Balance'', Str [], Str ''None'',
                           NoneV, Num NaN])
       \<and> distinct (categories_of f)
       \<and> categories_of (f\<lparr>rows := []\<rparr>) = []
       \<and> (\<forall>g r. categories_of (g\<lparr>rows := rows g @ [r]\<rparr>) =
              (if included (cell_at r ''CATEGORY'')
                  \<and> cell_at r ''CATEGORY'' \<notin> set (categories_of g)
               then categories_of g @ [cell_at r ''CATEGORY''] else categories_of g))
       \<and> log (snd (get_all_categories t s)) =
           log s @ [Info_unique_categories (length (categories_of f))]
           @ map Warn_unknown_type (unknown_types f)
           @ [Info_retrieved (length (bucket f ''income'')) (length (bucket f ''expense''))
                (length (bucket f ''saving'')) (length (bucket f ''investment''))]"
proof -
  have 1: "returned_frame (get_all_categories t s) = Some result"
    by (simp add: run_get_all_categories [OF assms(1,2,3)] returned_frame_def assms(5) nth_append)
  have 2: "log (snd (get_all_categories t s)) =
           log s @ [Info_unique_categories (length (categories_of f))]
           @ map Warn_unknown_type (unknown_types f)
           @ [Info_retrieved (length (bucket f ''income'')) (length (bucket f ''expense''))
                (length (bucket f ''saving'')) (length (bucket f ''investment''))]"
    by (simp add: run_get_all_categories [OF assms(1,2,3)])
  have 3: "distinct (categories_of f)" "categories_of (f\<lparr>rows := []\<rparr>) = []"
    by (simp_all add: categories_of_def)
  show ?thesis
    using 1 2 3 columns_of_categories_frame [OF assms(4)] categories_of_iff categories_of_snoc
    unfolding assms(5) by blast
qed


lemma categories_of_table:
  "categories_of categories_table = [Str ''Salary'', Str ''Rent'', Str ''Misc'']"
  by (simp add: categories_of_def categories_table_def included_def notna_def cell_at_def)

lemma first_type_table:
  "first_type categories_table (Str ''Salary'') = Str ''income''"
  "first_type categories_table (Str ''Rent'') = Str ''expense''"
  "first_type categories_table (Str ''Misc'') = Str ''transfer''"
  by (simp_all add: first_type_def categories_table_def cell_at_def)

lemma buckets_table:
  "bucket categories_table ''income'' = [Str ''Salary'']"
  "bucket categories_table ''expense'' = [Str ''Rent'']"
  "bucket categories_table ''saving'' = []"
  "bucket categories_table ''investment'' = []"
  "unknown_types categories_table = [Str ''Misc'']"
  by (simp_all add: bucket_def unknown_types_def categories_of_table first_type_table)

theorem categories_classified_witness:
  "returned_frame (get_all_categories 0 \<lparr>frames = [categories_table], log = []\<rparr>) =
     Some \<lparr>columns = [''income'', ''expense'', ''saving'', ''investment''],
           rows = [[(''income'', Str ''Salary''), (''expense'', Str ''Rent''),
                    (''saving'', NoneV), (''investment'', NoneV)]]\<rparr>
   \<and> log (snd (get_all_categories 0 \<lparr>frames = [categories_table], log = []\<rparr>)) =
       [Info_unique_categories 3, Warn_unknown_type (Str ''Misc''), Info_retrieved 1 1 0 0]"
  using categories_classified [where s = "\<lparr>frames = [categories_table], log = []\<rparr>" and t = 0
      and f = categories_table and n = 1
      and result = "categories_frame [Str ''Salary''] [Str ''Rent''] [] []"]
  by (simp add: buckets_table categories_of_table categories_frame_def pad_def Let_def)
    (simp add: categories_table_def)

section \<open>C1: comparisons the query engine rejects\<close>

lemma case_sum_isl: "isl x \<Longrightarrow> (case x of Inl e \<Rightarrow> B | Inr k \<Rightarrow> A k) = B"
  by (cases x) simp_all

lemma bind_read_frame_const: "bind (read_frame r) (\<lambda>f. m) = m"
  by (rule ext) simp

lemma process_criteria_skip:
  assumes "\<forall>g. isl (query_mask L g k (CStr v))" and "has_operator v"
  shows "process_criteria L r (pre @ (k, CStr v) # post) = process_criteria L r (pre @ post)"
proof (induction pre arbitrary: r)
  case Nil
  show ?case
    using assms by (intro ext) (simp add: case_sum_isl)
next
  case (Cons a pre)
  obtain key val where a: "a = (key, val)" by (cases a)
  show ?case by (simp add: a Cons.IH cong: if_cong)
qed

lemma map_of_append_skip:
  "k \<noteq> k' \<Longrightarrow> map_of (pre @ (k, v) # post) k' = map_of (pre @ post) k'"
  by (induction pre) auto

lemma delete_append_skip:
  "k \<noteq> k' \<Longrightarrow> AList.delete k' (pre @ (k, v) # post) = AList.delete k' pre @ (k, v) # AList.delete k' post"
  by (simp add: AList.delete_eq)

lemma delete_append: "AList.delete k (pre @ post) = AList.delete k pre @ AList.delete k post"
  by (simp add: AList.delete_eq)

lemma sum_values_skip:
  assumes "\<forall>g. isl (query_mask L g k (CStr v))" and "has_operator v" and "k \<noteq> ''VALUE_CONDITION''"
  shows "sum_values_by_criteria L t c (pre @ (k, CStr v) # post)
       = sum_values_by_criteria L t c (pre @ post)"
proof -
  have 1: "apply_value_condition L r c (pre @ (k, CStr v) # post)
         = apply_value_condition L r c (pre @ post)" for r
    unfolding apply_value_condition_def by (simp only: map_of_append_skip [OF assms(3)])
  have 2: "process_criteria L r (AList.delete ''VALUE_CONDITION'' (pre @ (k, CStr v) # post))
         = process_criteria L r (AList.delete ''VALUE_CONDITION'' (pre @ post))" for r
    using assms(3) by (simp add: AList.delete_eq process_criteria_skip [OF assms(1,2)])
  show ?thesis
    unfolding sum_values_by_criteria_def by (simp only: 1 2)
qed

lemma value_condition_skipped:
  assumes "map_of criteria ''VALUE_CONDITION'' = Some (CStr v)"
    and "\<forall>g. isl (query_mask L g c (CStr v))"
    and "\<not> contains v ''>''" and "\<not> contains v ''<''"
  shows "sum_values_by_criteria L t c criteria
       = sum_values_by_criteria L t c (AList.delete ''VALUE_CONDITION'' criteria)"
proof -
  have 1: "apply_value_condition L r c criteria = ret r" for r
    using assms by (simp add: apply_value_condition_def case_sum_isl bind_read_frame_const)
  have 2: "apply_value_condition L r c (AList.delete ''VALUE_CONDITION'' criteria) = ret r" for r
    by (simp add: apply_value_condition_def AList.delete_conv')
  show ?thesis
    unfolding sum_values_by_criteria_def by (simp only: 1 2 AList.delete_idem)
qed


lemma sum_column_threshold:
  assumes "c \<in> set (columns g)" and "length vs = length (rows g)"
  shows "sum_column (where_rows (\<lambda>r. P (num_of (cell_at r c))) (normalized L c vs g)) c
       = Inr (nansum (filter P vs))"
proof -
  have "map (\<lambda>r. num_of (cell_at r c))
          (filter (\<lambda>r. P (num_of (cell_at r c))) (map (\<lambda>(r, v). AList.update c (Num v) r) (zip rs vs)))
        = filter P vs" if "length vs = length rs" for rs :: "row list"
    using that by (induction vs rs rule: list_induct2) auto
  then show ?thesis
    using assms
    by (simp add: sum_column_def column_def where_rows_def rows_normalized comp_def)
qed

lemma sum_remaining_Nil: "fst (sum_remaining L c [] g s) = sum_column g c"
  by (simp add: sum_remaining_def ret_apply lift_apply)

lemma value_condition_fallback:
  assumes "column (frames s ! t) c = Inr xs" and "clean_floats L xs = Inr vs"
    and "rows (frames s ! t) \<noteq> []"
    and "f = normalized L c vs (frames s ! t)" and "s' = s\<lparr>frames := frames s @ [f]\<rparr>"
    and "map_of criteria ''VALUE_CONDITION'' = Some (CStr v)"
    and "isl (query_mask L f c (CStr v))"
  shows "contains v ''>'' \<Longrightarrow> py_float (str_strip (str_remove ''>'' v)) = Inr th \<Longrightarrow>
           sum_values_by_criteria L t c criteria s =
             sum_remaining L c (AList.delete ''VALUE_CONDITION'' criteria)
               (where_rows (\<lambda>r. fless th (num_of (cell_at r c))) f) s'"
    and "\<not> contains v ''>'' \<Longrightarrow> contains v ''<'' \<Longrightarrow>
         py_float (str_strip (str_remove ''<'' v)) = Inr th \<Longrightarrow>
           sum_values_by_criteria L t c criteria s =
             sum_remaining L c (AList.delete ''VALUE_CONDITION'' criteria)
               (where_rows (\<lambda>r. fless (num_of (cell_at r c)) th) f) s'"
  using assms(4-7)
  by (simp_all add: run_sum_values [OF assms(1,2,3)] apply_value_condition_def case_sum_isl
      sum_remaining_def bind_assoc del: new_frame_apply)


text \<open>
  C1, as the code has it. Let the query engine reject the expression \<open>v\<close>, and let the
  values of the non-empty table convert to the floats \<open>vs\<close>. As the
  \<^verbatim>\<open>VALUE_CONDITION\<close>, \<open>v\<close> is parsed by hand: when it contains \<^verbatim>\<open>>\<close> and the text
  left without every \<^verbatim>\<open>>\<close> is a number, the rows strictly above that number are kept;
  otherwise, when it contains \<^verbatim>\<open><\<close> and the text left without every \<^verbatim>\<open><\<close> is a
  number, the rows strictly below it are kept; when it contains neither, the condition is
  skipped. The other criteria then run on the rows kept. As the criterion of a column, \<open>v\<close>
  is never parsed by hand: the criterion is skipped, and the call is the call without it.
\<close>

theorem lenient_comparison_fallback:
  assumes "column (frames s ! t) c = Inr xs" and "clean_floats L xs = Inr vs"
    and "rows (frames s ! t) \<noteq> []"
    and "f = normalized L c vs (frames s ! t)" and "s' = s\<lparr>frames := frames s @ [f]\<rparr>"
    and "\<forall>g k. isl (query_mask L g k (CStr v))"
  shows "(map_of criteria ''VALUE_CONDITION'' = Some (CStr v) \<and> contains v ''>''
          \<and> py_float (str_strip (str_remove ''>'' v)) = Inr th \<longrightarrow>
            sum_values_by_criteria L t c criteria s =
              sum_remaining L c (AList.delete ''VALUE_CONDITION'' criteria)
                (where_rows (\<lambda>r. fless th (num_of (cell_at r c))) f) s'
            \<and> fst (sum_remaining L c [] (where_rows (\<lambda>r. fless th (num_of (cell_at r c))) f) s')
                = Inr (nansum (filter (\<lambda>x. fless th x) vs)))
       \<and> (map_of criteria ''VALUE_CONDITION'' = Some (CStr v) \<and> \<not> contains v ''>''
          \<and> contains v ''<'' \<and> py_float (str_strip (str_remove ''<'' v)) = Inr th \<longrightarrow>
            sum_values_by_criteria L t c criteria s =
              sum_remaining L c (AList.delete ''VALUE_CONDITION'' criteria)
                (where_rows (\<lambda>r. fless (num_of (cell_at r c)) th) f) s'
            \<and> fst (sum_remaining L c [] (where_rows (\<lambda>r. fless (num_of (cell_at r c)) th) f) s')
                = Inr (nansum (filter (\<lambda>x. fless x th) vs)))
       \<and> (map_of criteria ''VALUE_CONDITION'' = Some (CStr v) \<and> \<not> contains v ''>''
          \<and> \<not> contains v ''<'' \<longrightarrow>
            sum_values_by_criteria L t c criteria s =
              sum_values_by_criteria L t c (AList.delete ''VALUE_CONDITION'' criteria) s)
       \<and> (has_operator v \<and> k \<noteq> ''VALUE_CONDITION'' \<longrightarrow>
            sum_values_by_criteria L t c (pre @ (k, CStr v) # post) s =
              sum_values_by_criteria L t c (pre @ post) s)"
proof -
  from assms(1) have c: "c \<in> set (columns (frames s ! t))"
    and xs: "xs = map (\<lambda>r. cell_at r c) (rows (frames s ! t))"
    by (auto dest: columnD)
  have len: "length vs = length (rows (frames s ! t))"
    using length_clean_floats [OF assms(2)] xs by simp
  have q: "isl (query_mask L f c (CStr v))" "\<forall>g. isl (query_mask L g c (CStr v))"
    "\<forall>g. isl (query_mask L g k (CStr v))"
    using assms(6) by simp_all
  have above: "fst (sum_remaining L c [] (where_rows (\<lambda>r. P (num_of (cell_at r c))) f) s')
      = Inr (nansum (filter P vs))" for P
    by (simp only: sum_remaining_Nil assms(4) sum_column_threshold [OF c len])
  have 1: "sum_values_by_criteria L t c criteria s =
              sum_remaining L c (AList.delete ''VALUE_CONDITION'' criteria)
                (where_rows (\<lambda>r. fless th (num_of (cell_at r c))) f) s'"
    if "map_of criteria ''VALUE_CONDITION'' = Some (CStr v)" "contains v ''>''"
      "py_float (str_strip (str_remove ''>'' v)) = Inr th"
    using value_condition_fallback(1) [OF assms(1-5) that(1) q(1) that(2,3)] .
  have 2: "sum_values_by_criteria L t c criteria s =
              sum_remaining L c (AList.delete ''VALUE_CONDITION'' criteria)
                (where_rows (\<lambda>r. fless (num_of (cell_at r c)) th) f) s'"
    if "map_of criteria ''VALUE_CONDITION'' = Some (CStr v)" "\<not> contains v ''>''"
      "contains v ''<''" "py_float (str_strip (str_remove ''<'' v)) = Inr th"
    using value_condition_fallback(2) [OF assms(1-5) that(1) q(1) that(2,3,4)] .
  have 3: "sum_values_by_criteria L t c criteria s =
              sum_values_by_criteria L t c (AList.delete ''VALUE_CONDITION'' criteria) s"
    if "map_of criteria ''VALUE_CONDITION'' = Some (CStr v)" "\<not> contains v ''>''"
      "\<not> contains v ''<''"
    using value_condition_skipped [OF that(1) q(2) that(2,3)] by simp
  have 4: "sum_values_by_criteria L t c (pre @ (k, CStr v) # post) s =
              sum_values_by_criteria L t c (pre @ post) s"
    if "has_operator v" "k \<noteq> ''VALUE_CONDITION''"
    using sum_values_skip [OF q(3) that] by simp
  show ?thesis
    using 1 2 3 4 above [of "\<lambda>x. fless th x"] above [of "\<lambda>x. fless x th"] by blast
qed

lemma contains_examples:
  "contains ''> > 0'' ''>''" "\<not> contains ''< < 0'' ''>''" "contains ''< < 0'' ''<''"
  "\<not> contains ''abc'' ''>''" "\<not> contains ''abc'' ''<''" "has_operator ''> > 0''"
  by code_simp+

lemma threshold_examples:
  "py_float (str_strip (str_remove ''>'' ''> > 0'')) = Inr (Fin 0)"
  "py_float (str_strip (str_remove ''<'' ''< < 0'')) = Inr (Fin 0)"
  "py_float (str_strip ''  0'') = Inr (Fin 0)"
  by code_simp+

lemma fixture_values:
  "column (frames \<lparr>frames = [fixture], log = []\<rparr> ! 0) ''VALUE''
     = Inr [Str ''1000'', Str ''-400'', Str ''-200'']"
  "clean_floats example_lib [Str ''1000'', Str ''-400'', Str ''-200'']
     = Inr [Fin 1000, Fin (- 400), Fin (- 200)]"
  "rows (frames \<lparr>frames = [fixture], log = []\<rparr> ! 0) \<noteq> []"
  "\<forall>g k. isl (query_mask example_lib g k (CStr v))"
  by (simp_all add: fixture_def column_def cell_at_def clean_floats_def parse_simps example_lib_def)

text \<open>
  The claim as written fails on a criterion of a column: the engine rejects
  \<^verbatim>\<open>VALUE > > 0\<close>, the threshold parsed by hand would be 0 and the sum of the values
  above it 1000, as for the same text under \<^verbatim>\<open>VALUE_CONDITION\<close>, and the call returns
  the sum of all values, 400.
\<close>

theorem per_column_comparison_is_not_parsed:
  "isl (query_mask example_lib
         (normalized example_lib ''VALUE'' [Fin 1000, Fin (- 400), Fin (- 200)] fixture)
         ''VALUE'' (CStr ''> > 0''))
   \<and> threshold (CStr ''> > 0'') ''>'' = Inr (Fin 0)
   \<and> fst (sum_values_by_criteria example_lib 0 ''VALUE'' [(''VALUE'', CStr ''> > 0'')]
            \<lparr>frames = [fixture], log = []\<rparr>) = Inr (Fin 400)
   \<and> nansum (filter (\<lambda>x. fless (Fin 0) x) [Fin 1000, Fin (- 400), Fin (- 200)]) = Fin 1000
   \<and> fst (sum_values_by_criteria example_lib 0 ''VALUE'' [(''VALUE_CONDITION'', CStr ''> > 0'')]
            \<lparr>frames = [fixture], log = []\<rparr>) = Inr (Fin 1000)"
  by (simp add: fixture_def eval_simps contains_examples threshold_examples example_lib_def
      nth_append)


theorem lenient_comparison_fallback_witness:
  "contains ''> > 0'' ''>'' \<and> py_float (str_strip (str_remove ''>'' ''> > 0'')) = Inr (Fin 0)
   \<and> fst (sum_values_by_criteria example_lib 0 ''VALUE'' [(''VALUE_CONDITION'', CStr ''> > 0'')]
            \<lparr>frames = [fixture], log = []\<rparr>) = Inr (Fin 1000)
   \<and> \<not> contains ''< < 0'' ''>'' \<and> contains ''< < 0'' ''<''
   \<and> py_float (str_strip (str_remove ''<'' ''< < 0'')) = Inr (Fin 0)
   \<and> fst (sum_values_by_criteria example_lib 0 ''VALUE'' [(''VALUE_CONDITION'', CStr ''< < 0'')]
            \<lparr>frames = [fixture], log = []\<rparr>) = Inr (Fin (- 600))
   \<and> \<not> contains ''abc'' ''>'' \<and> \<not> contains ''abc'' ''<''
   \<and> sum_values_by_criteria example_lib 0 ''VALUE'' [(''VALUE_CONDITION'', CStr ''abc'')]
         \<lparr>frames = [fixture], log = []\<rparr>
       = sum_values_by_criteria example_lib 0 ''VALUE'' [] \<lparr>frames = [fixture], log = []\<rparr>
   \<and> has_operator ''> > 0''
   \<and> sum_values_by_criteria example_lib 0 ''VALUE''
         [(''CATEGORY'', CList [Str ''Salary'', Str ''Rent'']), (''VALUE'', CStr ''> > 0'')]
         \<lparr>frames = [fixture], log = []\<rparr>
       = sum_values_by_criteria example_lib 0 ''VALUE''
           [(''CATEGORY'', CList [Str ''Salary'', Str ''Rent''])] \<lparr>frames = [fixture], log = []\<rparr>"
  using
    lenient_comparison_fallback [OF fixture_values(1,2,3) refl refl fixture_values(4),
      where v = "''> > 0''" and criteria = "[(''VALUE_CONDITION'', CStr ''> > 0'')]"
      and th = "Fin 0" and k = "''VALUE''"
      and pre = "[(''CATEGORY'', CList [Str ''Salary'', Str ''Rent''])]" and post = "[]"]
    lenient_comparison_fallback [OF fixture_values(1,2,3) refl refl fixture_values(4),
      where v = "''< < 0''" and criteria = "[(''VALUE_CONDITION'', CStr ''< < 0'')]"
      and th = "Fin 0"]
    lenient_comparison_fallback [OF fixture_values(1,2,3) refl refl fixture_values(4),
      where v = "''abc''" and criteria = "[(''VALUE_CONDITION'', CStr ''abc'')]"]
  by (simp add: contains_examples threshold_examples nansum_def)

end
